theory Spec2Isabelle
  imports Main "HOL-Library.AList"
begin

section \<open>Python strings\<close>

text \<open>
  Strings are lists of 8-bit characters. The crawler handles URLs and page text; the model
  reads them as ASCII: \<open>lower()\<close> folds A-Z only, the whitespace of \<open>strip()\<close> and of the
  regular expression class \<open>\s\<close> is the ASCII part of Python's \<open>str.isspace\<close>, and the
  word characters of \<open>\w\<close> are letters, digits and the underscore.
\<close>

definition ascii_upper :: string where
  "ascii_upper = ''ABCDEFGHIJKLMNOPQRSTUVWXYZ''"

definition ascii_lower :: string where
  "ascii_lower = ''abcdefghijklmnopqrstuvwxyz''"

definition ascii_digits :: string where
  "ascii_digits = ''0123456789''"

definition lower_char :: "char \<Rightarrow> char" where
  "lower_char c = (case map_of (zip ascii_upper ascii_lower) c of Some l \<Rightarrow> l | None \<Rightarrow> c)"

definition py_lower :: "string \<Rightarrow> string" where
  "py_lower s = map lower_char s"

definition whitespace :: string where
  "whitespace = [CHR 0x09, CHR 0x0A, CHR 0x0B, CHR 0x0C, CHR 0x0D,
                 CHR 0x1C, CHR 0x1D, CHR 0x1E, CHR 0x1F, CHR 0x20]"

definition is_space :: "char \<Rightarrow> bool" where
  "is_space c = (c \<in> set whitespace)"

definition is_word_char :: "char \<Rightarrow> bool" where
  "is_word_char c = (c \<in> set (ascii_lower @ ascii_upper @ ascii_digits @ ''_''))"

text \<open>\<open>s.lstrip(chars)\<close>, \<open>s.rstrip(chars)\<close> and \<open>s.strip(chars)\<close>.\<close>

definition lstrip_chars :: "string \<Rightarrow> string \<Rightarrow> string" where
  "lstrip_chars chars s = dropWhile (\<lambda>c. c \<in> set chars) s"

definition rstrip_chars :: "string \<Rightarrow> string \<Rightarrow> string" where
  "rstrip_chars chars s = rev (dropWhile (\<lambda>c. c \<in> set chars) (rev s))"

definition strip_chars :: "string \<Rightarrow> string \<Rightarrow> string" where
  "strip_chars chars s = rstrip_chars chars (lstrip_chars chars s)"

definition py_strip :: "string \<Rightarrow> string" where
  "py_strip s = strip_chars whitespace s"

text \<open>\<open>s.startswith(p)\<close> and \<open>p in s\<close>.\<close>

fun startswith :: "string \<Rightarrow> string \<Rightarrow> bool" where
  "startswith s [] = True"
| "startswith [] (p # ps) = False"
| "startswith (c # cs) (p # ps) = (c = p \<and> startswith cs ps)"

fun contains :: "string \<Rightarrow> string \<Rightarrow> bool" where
  "contains [] sub = (sub = [])"
| "contains (c # cs) sub = (startswith (c # cs) sub \<or> contains cs sub)"

definition endswith :: "string \<Rightarrow> string \<Rightarrow> bool" where
  "endswith s p = startswith (rev s) (rev p)"

text \<open>
  \<open>s.replace(old, new)\<close>: the occurrences of \<open>old\<close> are replaced from the left, without
  overlap. The crawler only replaces by the empty string or removes single characters;
  with an empty \<open>old\<close> and an empty \<open>new\<close> Python returns \<open>s\<close>.
\<close>

fun py_replace :: "string \<Rightarrow> string \<Rightarrow> string \<Rightarrow> string" where
  "py_replace old new [] = []"
| "py_replace old new (c # cs) =
     (if old \<noteq> [] \<and> startswith (c # cs) old
      then new @ py_replace old new (drop (length old) (c # cs))
      else c # py_replace old new cs)"

text \<open>
  \<open>s.split(sep)\<close> for a separator of one character, and \<open>sep.join(parts)\<close>.
  \<open>s.split(sep)[0]\<close> for a longer separator is \<open>before_first\<close>.
\<close>

fun split_char :: "char \<Rightarrow> string \<Rightarrow> string list" where
  "split_char sep [] = [[]]"
| "split_char sep (c # cs) =
     (case split_char sep cs of
        [] \<Rightarrow> (if c = sep then [[], []] else [[c]])
      | p # ps \<Rightarrow> (if c = sep then [] # p # ps else (c # p) # ps))"

fun join :: "string \<Rightarrow> string list \<Rightarrow> string" where
  "join sep [] = []"
| "join sep [p] = p"
| "join sep (p # q # ps) = p @ sep @ join sep (q # ps)"

fun before_first :: "string \<Rightarrow> string \<Rightarrow> string" where
  "before_first sep [] = []"
| "before_first sep (c # cs) =
     (if sep \<noteq> [] \<and> startswith (c # cs) sep then [] else c # before_first sep cs)"

text \<open>\<open>s.partition(c)\<close> as the text before the first \<open>c\<close> and the text after it.\<close>

definition before_char :: "char \<Rightarrow> string \<Rightarrow> string" where
  "before_char c s = takeWhile (\<lambda>x. x \<noteq> c) s"

definition after_char :: "char \<Rightarrow> string \<Rightarrow> string" where
  "after_char c s = drop 1 (dropWhile (\<lambda>x. x \<noteq> c) s)"

text \<open>Decimal \<open>str(n)\<close> of an integer, as an f-string prints a status code.\<close>

definition digit_char :: "nat \<Rightarrow> char" where
  "digit_char d = ascii_digits ! d"

fun str_nat :: "nat \<Rightarrow> string" where
  "str_nat n = (if n < 10 then [digit_char n] else str_nat (n div 10) @ [digit_char (n mod 10)])"

declare str_nat.simps [simp del]

definition str_int :: "int \<Rightarrow> string" where
  "str_int i = (if i < 0 then ''-'' @ str_nat (nat (- i)) else str_nat (nat i))"

section \<open>Regular expressions of the crawler\<close>

text \<open>
  \<open>re.search(r'(w1|w2|...)', s)\<close> for literal words: one of them occurs in \<open>s\<close>.
\<close>

definition search_any :: "string list \<Rightarrow> string \<Rightarrow> bool" where
  "search_any ws s = (\<exists>w \<in> set ws. contains s w)"

text \<open>\<open>re.match(r'^(w1|w2|...)', s)\<close>: \<open>s\<close> starts with one of the words.\<close>

definition match_any_prefix :: "string list \<Rightarrow> string \<Rightarrow> bool" where
  "match_any_prefix ws s = (\<exists>w \<in> set ws. startswith s w)"

text \<open>
  \<open>re.search(r'(w1|w2|...)s?/', path, re.I)\<close>: a word, an optional \<open>s\<close>, a slash.
  With \<open>re.I\<close> the search is the search in the lower-cased path.
\<close>

definition search_plural_slash :: "string list \<Rightarrow> string \<Rightarrow> bool" where
  "search_plural_slash ws path =
     (\<exists>w \<in> set ws. contains (py_lower path) (w @ ''/'') \<or> contains (py_lower path) (w @ ''s/''))"

text \<open>
  \<open>re.search(rf'\b{w}s?\b', s)\<close> for a word \<open>w\<close> of letters: \<open>w\<close> occurs at a place where the
  character before is not a word character (or there is none), and after \<open>w\<close>, or after
  \<open>w\<close> and an \<open>s\<close>, the string ends or goes on with a character that is not a word character.
  \<open>word_at prev s w\<close> tries the match at the start of \<open>s\<close>, \<open>prev\<close> being the character
  before it.
\<close>

definition at_word_end :: "string \<Rightarrow> bool" where
  "at_word_end r = (case r of [] \<Rightarrow> True | c # _ \<Rightarrow> \<not> is_word_char c)"

definition word_at :: "char option \<Rightarrow> string \<Rightarrow> string \<Rightarrow> bool" where
  "word_at prev s w =
     ((case prev of None \<Rightarrow> True | Some p \<Rightarrow> \<not> is_word_char p) \<and>
      startswith s w \<and>
      (let r = drop (length w) s
       in at_word_end r \<or> (startswith r ''s'' \<and> at_word_end (drop 1 r))))"

fun search_word_from :: "char option \<Rightarrow> string \<Rightarrow> string \<Rightarrow> bool" where
  "search_word_from prev [] w = word_at prev [] w"
| "search_word_from prev (c # cs) w = (word_at prev (c # cs) w \<or> search_word_from (Some c) cs w)"

definition search_word :: "string \<Rightarrow> string \<Rightarrow> bool" where
  "search_word w s = search_word_from None s w"

text \<open>
  \<open>re.sub(r'%\{[^}]+\}%', '', s)\<close>: a match starts with \<open>%{\<close>, runs over one or more
  characters other than \<open>}\<close> and ends with \<open>}%\<close>; matches are removed from the left.
\<close>

definition placeholder_len :: "string \<Rightarrow> nat option" where
  "placeholder_len s =
     (if startswith s ''%{'' then
        (let body = takeWhile (\<lambda>c. c \<noteq> CHR ''}'') (drop 2 s);
             rest = dropWhile (\<lambda>c. c \<noteq> CHR ''}'') (drop 2 s)
         in if body \<noteq> [] \<and> startswith rest ''}%'' then Some (length body + 4) else None)
      else None)"

function sub_placeholder :: "string \<Rightarrow> string" where
  "sub_placeholder [] = []"
| "sub_placeholder (c # cs) =
     (case placeholder_len (c # cs) of
        Some n \<Rightarrow> sub_placeholder (drop n (c # cs))
      | None \<Rightarrow> c # sub_placeholder cs)"
  by pat_completeness auto
termination
  by (relation "measure length") (auto simp: placeholder_len_def Let_def split: if_splits)

text \<open>\<open>re.sub(r'\s+', ' ', s)\<close>: every run of whitespace becomes one space.\<close>

fun collapse_from :: "bool \<Rightarrow> string \<Rightarrow> string" where
  "collapse_from in_run [] = []"
| "collapse_from in_run (c # cs) =
     (if is_space c then (if in_run then collapse_from True cs else CHR '' '' # collapse_from True cs)
      else c # collapse_from False cs)"

definition collapse_spaces :: "string \<Rightarrow> string" where
  "collapse_spaces s = collapse_from False s"

section \<open>The URL library\<close>

text \<open>
  The crawler calls \<open>urllib.parse\<close> of the Python standard library. The functions it calls
  are modelled after CPython 3.11 on byte strings: \<open>urlsplit\<close>, \<open>urlparse\<close>,
  \<open>urlunsplit\<close>, \<open>urlunparse\<close>, \<open>urljoin\<close>, \<open>parse_qs\<close> and \<open>urlencode\<close> with
  \<open>quote_plus\<close>. The model leaves out the \<open>ValueError\<close> of \<open>urlsplit\<close> on a host with
  unbalanced brackets or with characters that normalise to delimiters, and it keeps the
  bytes of a percent escape as they are, where Python decodes them as UTF-8 and replaces
  an invalid sequence.
\<close>

record parse_result =
  url_scheme :: string
  url_netloc :: string
  url_path :: string
  url_params :: string
  url_query :: string
  url_fragment :: string

definition uses_relative :: "string list" where
  "uses_relative = [[], ''ftp'', ''http'', ''gopher'', ''nntp'', ''imap'',
     ''wais'', ''file'', ''https'', ''shttp'', ''mms'',
     ''prospero'', ''rtsp'', ''rtsps'', ''rtspu'', ''sftp'',
     ''svn'', ''svn+ssh'', ''ws'', ''wss'']"

definition uses_netloc :: "string list" where
  "uses_netloc = [[], ''ftp'', ''http'', ''gopher'', ''nntp'', ''telnet'',
     ''imap'', ''wais'', ''file'', ''mms'', ''https'', ''shttp'',
     ''snews'', ''prospero'', ''rtsp'', ''rtsps'', ''rtspu'', ''rsync'',
     ''svn'', ''svn+ssh'', ''sftp'', ''nfs'', ''git'', ''git+ssh'',
     ''ws'', ''wss'']"

definition uses_params :: "string list" where
  "uses_params = [[], ''ftp'', ''hdl'', ''prospero'', ''http'', ''imap'',
     ''https'', ''shttp'', ''rtsp'', ''rtsps'', ''rtspu'', ''sip'',
     ''sips'', ''mms'', ''sftp'', ''tel'']"

definition scheme_chars :: string where
  "scheme_chars = ascii_lower @ ascii_upper @ ascii_digits @ ''+-.''"

definition is_alpha :: "char \<Rightarrow> bool" where
  "is_alpha c = (c \<in> set (ascii_lower @ ascii_upper))"

definition c0_control_or_space :: string where
  "c0_control_or_space =
    [CHR 0x00, CHR 0x01, CHR 0x02, CHR 0x03, CHR 0x04, CHR 0x05, CHR 0x06, CHR 0x07, CHR
     0x08, CHR 0x09, CHR 0x0A, CHR 0x0B, CHR 0x0C, CHR 0x0D, CHR 0x0E, CHR 0x0F, CHR
     0x10, CHR 0x11, CHR 0x12, CHR 0x13, CHR 0x14, CHR 0x15, CHR 0x16, CHR 0x17, CHR
     0x18, CHR 0x19, CHR 0x1A, CHR 0x1B, CHR 0x1C, CHR 0x1D, CHR 0x1E, CHR 0x1F, CHR
     0x20]"

definition remove_unsafe :: "string \<Rightarrow> string" where
  "remove_unsafe url =
     py_replace [CHR 0x0A] [] (py_replace [CHR 0x0D] [] (py_replace [CHR 0x09] [] url))"

definition split_scheme :: "string \<Rightarrow> string \<Rightarrow> string \<times> string" where
  "split_scheme dflt url =
     (let pre = before_char CHR '':'' url
      in if CHR '':'' \<in> set url \<and> pre \<noteq> [] \<and> is_alpha (hd pre) \<and>
            (\<forall>c \<in> set pre. c \<in> set scheme_chars)
         then (py_lower pre, after_char CHR '':'' url)
         else (dflt, url))"

definition splitnetloc :: "string \<Rightarrow> string \<times> string" where
  "splitnetloc url =
     (takeWhile (\<lambda>c. c \<notin> set ''/?#'') (drop 2 url),
      dropWhile (\<lambda>c. c \<notin> set ''/?#'') (drop 2 url))"

text \<open>
  \<open>urlsplit(url, scheme)\<close> and \<open>urlparse(url, scheme)\<close>: \<open>dflt\<close> is the scheme taken
  when the URL has none (the empty string unless \<open>urljoin\<close> passes the scheme of the base).
\<close>

definition urlsplit_with :: "string \<Rightarrow> string \<Rightarrow> parse_result" where
  "urlsplit_with dflt url0 =
     (let url1 = remove_unsafe (lstrip_chars c0_control_or_space url0);
          (scheme, url2) = split_scheme dflt url1;
          (netloc, url3) = (if take 2 url2 = ''//'' then splitnetloc url2 else ([], url2));
          (url4, fragment) = (if CHR ''#'' \<in> set url3
                              then (before_char CHR ''#'' url3, after_char CHR ''#'' url3)
                              else (url3, []));
          (url5, query) = (if CHR ''?'' \<in> set url4
                           then (before_char CHR ''?'' url4, after_char CHR ''?'' url4)
                           else (url4, []))
      in \<lparr>url_scheme = scheme, url_netloc = netloc, url_path = url5, url_params = [],
          url_query = query, url_fragment = fragment\<rparr>)"

definition splitparams :: "string \<Rightarrow> string \<times> string" where
  "splitparams url =
     (if CHR ''/'' \<in> set url then
        (let last_seg = rev (takeWhile (\<lambda>c. c \<noteq> CHR ''/'') (rev url));
             front = take (length url - length last_seg) url
         in if CHR '';'' \<in> set last_seg
            then (front @ before_char CHR '';'' last_seg, after_char CHR '';'' last_seg)
            else (url, []))
      else (before_char CHR '';'' url, after_char CHR '';'' url))"

definition urlparse_with :: "string \<Rightarrow> string \<Rightarrow> parse_result" where
  "urlparse_with dflt url =
     (let r = urlsplit_with dflt url
      in if url_scheme r \<in> set uses_params \<and> CHR '';'' \<in> set (url_path r)
         then (case splitparams (url_path r) of (p, ps) \<Rightarrow> r\<lparr>url_path := p, url_params := ps\<rparr>)
         else r)"

definition urlparse :: "string \<Rightarrow> parse_result" where
  "urlparse url = urlparse_with [] url"

definition urlunsplit :: "string \<Rightarrow> string \<Rightarrow> string \<Rightarrow> string \<Rightarrow> string \<Rightarrow> string" where
  "urlunsplit scheme netloc url query fragment =
     (let url1 = (if netloc \<noteq> [] \<or> (scheme \<noteq> [] \<and> scheme \<in> set uses_netloc) \<or> take 2 url = ''//''
                  then ''//'' @ netloc @ (if url \<noteq> [] \<and> take 1 url \<noteq> ''/'' then ''/'' @ url else url)
                  else url);
          url2 = (if scheme \<noteq> [] then scheme @ '':'' @ url1 else url1);
          url3 = (if query \<noteq> [] then url2 @ ''?'' @ query else url2)
      in if fragment \<noteq> [] then url3 @ ''#'' @ fragment else url3)"

definition urlunparse :: "parse_result \<Rightarrow> string" where
  "urlunparse r =
     urlunsplit (url_scheme r) (url_netloc r)
       (if url_params r \<noteq> [] then url_path r @ '';'' @ url_params r else url_path r)
       (url_query r) (url_fragment r)"

subsection \<open>Percent escapes\<close>

definition hexdig_upper :: string where
  "hexdig_upper = ''0123456789ABCDEF''"

definition hexdig_lower :: string where
  "hexdig_lower = ''0123456789abcdef''"

fun nibble_bits :: "nat \<Rightarrow> bool \<times> bool \<times> bool \<times> bool" where
  "nibble_bits n = (odd n, odd (n div 2), odd (n div 4), odd (n div 8))"

fun bits_nibble :: "bool \<Rightarrow> bool \<Rightarrow> bool \<Rightarrow> bool \<Rightarrow> nat" where
  "bits_nibble b0 b1 b2 b3 =
     (if b0 then 1 else 0) + (if b1 then 2 else 0) + (if b2 then 4 else 0) + (if b3 then 8 else 0)"

definition hex_value :: "char \<Rightarrow> nat option" where
  "hex_value c =
     (case map_of (zip hexdig_upper [0 ..< 16]) c of
        Some n \<Rightarrow> Some n
      | None \<Rightarrow> map_of (zip hexdig_lower [0 ..< 16]) c)"

definition byte_of_hex :: "nat \<Rightarrow> nat \<Rightarrow> char" where
  "byte_of_hex hi lo =
     (case (nibble_bits lo, nibble_bits hi) of
        ((a0, a1, a2, a3), (a4, a5, a6, a7)) \<Rightarrow> Char a0 a1 a2 a3 a4 a5 a6 a7)"

fun hex_of_byte :: "char \<Rightarrow> string" where
  "hex_of_byte (Char a0 a1 a2 a3 a4 a5 a6 a7) =
     [hexdig_upper ! bits_nibble a4 a5 a6 a7, hexdig_upper ! bits_nibble a0 a1 a2 a3]"

definition always_safe :: string where
  "always_safe = ascii_upper @ ascii_lower @ ascii_digits @ ''_.-~''"

definition quote :: "string \<Rightarrow> string \<Rightarrow> string" where
  "quote safe s =
     concat (map (\<lambda>c. if c \<in> set (always_safe @ safe) then [c] else CHR ''%'' # hex_of_byte c) s)"

definition quote_plus :: "string \<Rightarrow> string" where
  "quote_plus s =
     (if CHR '' '' \<notin> set s then quote [] s else py_replace '' '' ''+'' (quote '' '' s))"

fun unquote :: "string \<Rightarrow> string" where
  "unquote [] = []"
| "unquote (c # cs) =
     (if c = CHR ''%'' then
        (case cs of
           h1 # h2 # rest \<Rightarrow>
             (case (hex_value h1, hex_value h2) of
                (Some hi, Some lo) \<Rightarrow> byte_of_hex hi lo # unquote rest
              | _ \<Rightarrow> c # unquote cs)
         | _ \<Rightarrow> c # unquote cs)
      else c # unquote cs)"

definition unquote_plus :: "string \<Rightarrow> string" where
  "unquote_plus s = unquote (py_replace ''+'' '' '' s)"

subsection \<open>Query strings\<close>

text \<open>
  \<open>parse_qsl\<close> with its defaults: fields are separated by \<open>&\<close>, a field with an empty
  value (or without \<open>=\<close>) is dropped. \<open>parse_qs\<close> collects the values of a name in a
  dictionary; a Python dictionary keeps its keys in the order of their first insertion, so
  it is an association list, \<open>AList.update\<close> being the assignment \<open>d[k] = v\<close>.
\<close>

definition parse_field :: "string \<Rightarrow> (string \<times> string) list" where
  "parse_field name_value =
     (if name_value \<noteq> [] \<and> after_char CHR ''='' name_value \<noteq> []
      then [(unquote_plus (before_char CHR ''='' name_value),
             unquote_plus (after_char CHR ''='' name_value))]
      else [])"

definition parse_qsl :: "string \<Rightarrow> (string \<times> string) list" where
  "parse_qsl qs = (if qs = [] then [] else concat (map parse_field (split_char CHR ''&'' qs)))"

definition add_value :: "(string \<times> string list) list \<Rightarrow> string \<times> string \<Rightarrow> (string \<times> string list) list" where
  "add_value d nv =
     (case map_of d (fst nv) of
        Some vs \<Rightarrow> AList.update (fst nv) (vs @ [snd nv]) d
      | None \<Rightarrow> AList.update (fst nv) [snd nv] d)"

definition parse_qs :: "string \<Rightarrow> (string \<times> string list) list" where
  "parse_qs qs = foldl add_value [] (parse_qsl qs)"

text \<open>\<open>urlencode(query, doseq=True)\<close> for a dictionary of lists of strings.\<close>

definition urlencode :: "(string \<times> string list) list \<Rightarrow> string" where
  "urlencode d =
     join ''&'' (concat (map (\<lambda>(k, vs). map (\<lambda>v. quote_plus k @ ''='' @ quote_plus v) vs) d))"

subsection \<open>Joining a relative URL to a base\<close>

definition resolve_segment :: "string list \<Rightarrow> string \<Rightarrow> string list" where
  "resolve_segment resolved seg =
     (if seg = ''..'' then butlast resolved
      else if seg = ''.'' then resolved
      else resolved @ [seg])"

definition drop_inner_empty :: "string list \<Rightarrow> string list" where
  "drop_inner_empty segments =
     (if length segments < 2 then segments
      else hd segments # filter (\<lambda>seg. seg \<noteq> []) (butlast (tl segments)) @ [last segments])"

definition urljoin :: "string \<Rightarrow> string \<Rightarrow> string" where
  "urljoin base url =
     (if base = [] then url
      else if url = [] then base
      else
        (let b = urlparse base;
             u = urlparse_with (url_scheme b) url
         in if url_scheme u \<noteq> url_scheme b \<or> url_scheme u \<notin> set uses_relative then url
            else if url_scheme u \<in> set uses_netloc \<and> url_netloc u \<noteq> [] then urlunparse u
            else
              (let u1 = (if url_scheme u \<in> set uses_netloc then u\<lparr>url_netloc := url_netloc b\<rparr> else u)
               in if url_path u1 = [] \<and> url_params u1 = [] then
                    urlunparse (u1\<lparr>url_path := url_path b, url_params := url_params b,
                                   url_query := (if url_query u1 = [] then url_query b else url_query u1)\<rparr>)
                  else
                    (let base_parts0 = split_char CHR ''/'' (url_path b);
                         base_parts = (if last base_parts0 \<noteq> [] then butlast base_parts0 else base_parts0);
                         segments = (if take 1 (url_path u1) = ''/'' then split_char CHR ''/'' (url_path u1)
                                     else drop_inner_empty (base_parts @ split_char CHR ''/'' (url_path u1)));
                         resolved0 = foldl resolve_segment [] segments;
                         resolved = (if last segments = ''.'' \<or> last segments = ''..''
                                     then resolved0 @ [[]] else resolved0);
                         joined = join ''/'' resolved
                     in urlunparse (u1\<lparr>url_path := (if joined = [] then ''/'' else joined)\<rparr>)))))"

section \<open>The generator: configuration, documents and state\<close>

text \<open>
  \<open>content_page_types\<close> and \<open>avoid_page_types\<close> are the two sets of \<open>__init__\<close>.
  \<open>classify_page\<close> iterates over \<open>avoid_page_types\<close> and returns at the first hit. Python
  does not fix the order in which a set of strings is iterated (it follows the hashes of the
  strings, which are salted per interpreter process), so the order is a field of the
  configuration, \<open>avoid_iteration\<close>: some arrangement of the sixteen terms.
  The output file and the delay play no part in the model.
\<close>

definition content_page_types :: "string list" where
  "content_page_types = [''article'', ''blog'', ''news'', ''resource'', ''guide'', ''faq'',
     ''research'', ''publication'', ''study'', ''report'']"

definition avoid_page_types :: "string list" where
  "avoid_page_types = [''login'', ''register'', ''signup'', ''signin'', ''account'',
     ''cart'', ''checkout'', ''contact'', ''about'', ''team'', ''privacy'',
     ''terms'', ''policy'', ''legal'', ''copyright'', ''search'']"

record config =
  max_pages_per_domain :: int
  respect_robots :: bool
  content_only :: bool
  avoid_iteration :: "string list"

definition valid_config :: "config \<Rightarrow> bool" where
  "valid_config cfg =
     (set (avoid_iteration cfg) = set avoid_page_types \<and> distinct (avoid_iteration cfg))"

text \<open>
  A parsed page. The HTML parser is outside the crawler; a document records the answers of
  the parse tree to the queries the crawler makes. The first group is asked of the whole
  tree before extraction; the fields \<open>main_...\<close> and \<open>doc_hrefs\<close> are asked after
  \<open>extract_text_with_structure\<close> has chosen the main content container and removed the
  navigation, advertisement and script elements from it. \<open>processing_fault\<close> is an
  exception raised while the page is parsed, classified or extracted, \<open>link_fault\<close> one
  raised while its links are resolved (a malformed \<open>href\<close>).
\<close>

record html_list =
  list_parent :: "string option"
  list_classes :: "string list"
  list_li :: "string list"

record document =
  doc_title :: "string option"
  doc_meta_description :: "string option"
  doc_paragraphs :: "string list"
  doc_article_schema :: bool
  doc_classes :: "string list"
  doc_lists :: nat
  main_headings :: "string list list"
  main_paragraphs :: "string list"
  main_ul :: "html_list list"
  main_ol :: "html_list list"
  doc_hrefs :: "string list"
  processing_fault :: "string option"
  link_fault :: "string option"

datatype fetch_result =
    FetchRaises string
  | Response int string document

text \<open>
  The network: what \<open>requests.get\<close> answers for a URL (an exception, or a status code, the
  \<open>Content-Type\<close> header and the parsed body), whether reading \<open>robots.txt\<close> of a site
  fails, and what its rules allow.
\<close>

record environment =
  http_get :: "string \<Rightarrow> fetch_result"
  robots_read_fails :: "string \<Rightarrow> bool"
  robots_can_fetch :: "string \<Rightarrow> string \<Rightarrow> bool"

record content =
  content_title :: string
  content_meta_description :: string
  content_headings :: "(string \<times> string list) list"
  content_paragraphs :: "string list"
  content_lists :: "(string \<times> string list) list"
  content_url :: "string option"

text \<open>A page record; the time stamp \<open>crawled_at\<close> is left out.\<close>

record page_record =
  rec_type :: string
  rec_content :: content
  rec_depth :: nat

record domain_stats =
  ds_pages_crawled :: nat
  ds_by_type :: "(string \<times> nat) list"

record domain_record =
  d_base_url :: string
  d_pages :: "(string \<times> page_record) list"
  d_stats :: domain_stats

record run_stats =
  st_pages_crawled :: nat
  st_pages_skipped :: nat
  st_errors :: nat

record error_entry =
  err_url :: string
  err_error :: string
  err_status_code :: "int option"
  err_exception :: "string option"

record metadata =
  md_total_domains :: nat
  md_total_pages :: nat
  md_pages_crawled :: nat
  md_pages_skipped :: nat
  md_errors :: nat
  md_error_list :: "error_entry list"

text \<open>
  The state of a \<open>KnowledgeBaseGenerator\<close>. Dictionaries are association lists in
  insertion order. \<open>fetched\<close> is not a field of the class: it logs the URLs on which
  \<open>requests.get\<close> was called, in the order of the calls. Python keeps the metadata under
  the key \<open>_metadata\<close> of \<open>knowledge_base\<close>; it is a field of its own here. The generated
  time stamp and the generator name of the metadata are left out.
\<close>

record state =
  knowledge_base :: "(string \<times> domain_record) list"
  visited_urls :: "string set"
  robot_parsers :: "string list"
  error_urls :: "error_entry list"
  stats :: run_stats
  kb_metadata :: "metadata option"
  fetched :: "string list"

definition init_state :: state where
  "init_state =
     \<lparr>knowledge_base = [], visited_urls = {}, robot_parsers = [], error_urls = [],
      stats = \<lparr>st_pages_crawled = 0, st_pages_skipped = 0, st_errors = 0\<rparr>,
      kb_metadata = None, fetched = []\<rparr>"

section \<open>URL canonicalisation\<close>

definition get_domain :: "string \<Rightarrow> string" where
  "get_domain url = url_netloc (urlparse url)"

definition normalize_url :: "string \<Rightarrow> string \<Rightarrow> string" where
  "normalize_url url base_url =
     (let url1 = hd (split_char CHR ''#'' url)
      in if \<not> (startswith url1 ''http://'' \<or> startswith url1 ''https://'')
         then urljoin base_url url1
         else url1)"

definition tracking_params :: "string list" where
  "tracking_params = [''utm_source'', ''utm_medium'', ''utm_campaign'', ''utm_term'', ''utm_content'',
     ''fbclid'', ''gclid'', ''msclkid'', ''ref'', ''source'', ''intcmp'', ''cmp'', ''mc_cid'',
     ''mc_eid'', ''sb_referer_host'', ''_hsenc'', ''_hsmi'', ''_ga'', ''form'', ''lang'']"

definition clean_url :: "string \<Rightarrow> string" where
  "clean_url url =
     (let parsed_url = urlparse url
      in if url_netloc parsed_url = ''www.alz.org'' then
           urlunparse (parsed_url\<lparr>url_query := [], url_fragment := []\<rparr>)
         else if url_netloc parsed_url = ''www.webmd.com'' then
           (let query_params = parse_qs (url_query parsed_url);
                filtered_params = filter (\<lambda>(k, v). k = ''pg'') query_params;
                filtered_query = urlencode filtered_params
            in urlunparse (parsed_url\<lparr>url_query := filtered_query, url_fragment := []\<rparr>))
         else
           (let query_params = parse_qs (url_query parsed_url);
                filtered_params = filter (\<lambda>(k, v). py_lower k \<notin> set tracking_params) query_params;
                filtered_query = urlencode filtered_params
            in urlunparse (parsed_url\<lparr>url_query := filtered_query, url_fragment := []\<rparr>)))"

definition is_internal_link :: "string \<Rightarrow> string \<Rightarrow> bool" where
  "is_internal_link url base_domain =
     (let url_domain = get_domain url
      in url_domain = base_domain \<or> url_domain = ''www.'' @ base_domain \<or>
         ''www.'' @ url_domain = base_domain)"

section \<open>Classification and the content filter\<close>

text \<open>
  \<open>soup\<close> is \<open>None\<close> when \<open>classify_page\<close> is called without a document; a parsed document
  is always true as a condition.
\<close>

definition many_paragraphs :: "document \<Rightarrow> bool" where
  "many_paragraphs doc =
     (length (doc_paragraphs doc) > 5 \<and> sum_list (map length (doc_paragraphs doc)) > 1000)"

definition has_class :: "document \<Rightarrow> string \<Rightarrow> bool" where
  "has_class doc pat = (\<exists>c \<in> set (doc_classes doc). contains (py_lower c) pat)"

definition classify_page :: "config \<Rightarrow> string \<Rightarrow> string \<Rightarrow> document option \<Rightarrow> string" where
  "classify_page cfg url base_url soup =
     (let path = strip_chars ''/'' (py_replace base_url [] url)
      in if path = [] then ''homepage''
         else
           (case (if \<exists>avoid \<in> set (avoid_iteration cfg). contains (py_lower path) avoid
                  then find (\<lambda>avoid. search_word avoid (py_lower path)) (avoid_iteration cfg)
                  else None) of
              Some avoid \<Rightarrow> avoid
            | None \<Rightarrow>
                if search_plural_slash [''article'', ''post'', ''blog''] path then ''article''
                else if search_plural_slash [''news'', ''press'', ''release''] path then ''news''
                else if search_plural_slash [''resource'', ''guide'', ''handbook'', ''help''] path
                  then ''resource''
                else if search_any [''faq'', ''question'', ''answer''] (py_lower path) then ''faq''
                else if search_plural_slash [''research'', ''publication'', ''study'', ''report''] path
                  then ''research''
                else
                  (case (case soup of
                           None \<Rightarrow> None
                         | Some doc \<Rightarrow>
                             if many_paragraphs doc then Some ''article''
                             else if doc_article_schema doc then Some ''article''
                             else if \<exists>content_class \<in> set [''content'', ''article'', ''post'',
                                        ''blog'', ''entry'', ''main-content'']. has_class doc content_class
                               then Some ''article''
                             else None) of
                     Some t \<Rightarrow> t
                   | None \<Rightarrow>
                       if CHR ''/'' \<in> set path then hd (split_char CHR ''/'' path)
                       else ''other'')))"

definition is_content_rich_page :: "string \<Rightarrow> document option \<Rightarrow> bool" where
  "is_content_rich_page page_type soup =
     (if py_lower page_type \<in> set content_page_types then True
      else if py_lower page_type \<in> set avoid_page_types then False
      else if (case soup of None \<Rightarrow> False | Some doc \<Rightarrow> many_paragraphs doc \<or> doc_lists doc > 2)
        then True
      else page_type = ''homepage'')"

section \<open>Extraction\<close>

definition site_indicators :: "string list" where
  "site_indicators = ['' - AARP'', '' | WebMD'', '' | Mayo Clinic'', '' | NIH'', '' | CDC'']"

definition extract_title :: "document \<Rightarrow> string" where
  "extract_title doc =
     (case doc_title doc of
        None \<Rightarrow> []
      | Some t \<Rightarrow>
          if t = [] then []
          else foldl (\<lambda>title_text indicator.
                        if contains title_text indicator
                        then py_strip (before_first indicator title_text)
                        else title_text)
                 (py_strip t) site_indicators)"

definition extract_meta_description :: "document \<Rightarrow> string" where
  "extract_meta_description doc =
     (case doc_meta_description doc of
        None \<Rightarrow> []
      | Some c \<Rightarrow> if c = [] then [] else py_strip c)"

definition navigational_headings :: "string list" where
  "navigational_headings = [''menu'', ''navigation'', ''search'', ''related'', ''popular'', ''more'']"

definition extract_headings :: "document \<Rightarrow> (string \<times> string list) list" where
  "extract_headings doc =
     concat (map (\<lambda>(level, heading_tags).
                    if heading_tags = [] then []
                    else [(''h'' @ str_nat level,
                           filter (\<lambda>heading_text. length heading_text > 3 \<and>
                                     py_lower heading_text \<notin> set navigational_headings)
                             (map py_strip heading_tags))])
             (zip [1 ..< 7] (main_headings doc)))"

definition paragraph_boilerplate :: "string list" where
  "paragraph_boilerplate =
     [''login'', ''sign in'', ''subscribe'', ''newsletter'', ''privacy policy'', ''terms'']"

definition advertisement_marker :: string where
  "advertisement_marker = ''ARTICLE CONTINUES AFTER ADVERTISEMENT''"

text \<open>
  One round of the paragraph loop: \<open>acc\<close> is the pair of \<open>content["paragraphs"]\<close> and
  \<open>extracted_texts\<close>, \<open>raw\<close> is \<open>p.get_text()\<close>.
\<close>

definition paragraph_step :: "string list \<times> string set \<Rightarrow> string \<Rightarrow> string list \<times> string set" where
  "paragraph_step acc raw =
     (let text = py_strip raw
      in if text \<noteq> [] \<and> length text > 20 \<and>
            \<not> contains text ''%{'' \<and>
            \<not> search_any paragraph_boilerplate (py_lower text) \<and>
            \<not> match_any_prefix [''you are now leaving'', ''already a member''] (py_lower text) \<and>
            text \<notin> snd acc
         then
           (let text1 = sub_placeholder text;
                text2 = py_replace advertisement_marker [] text1
            in if py_strip text2 \<noteq> [] \<and> py_lower (py_strip text2) \<notin> snd acc
               then (fst acc @ [py_strip text2], insert (py_lower (py_strip text2)) (snd acc))
               else acc)
         else acc)"

definition extract_paragraphs :: "string list \<Rightarrow> string list" where
  "extract_paragraphs raws = fst (foldl paragraph_step ([], {}) raws)"

definition list_item_step :: "string list \<Rightarrow> string \<Rightarrow> string list" where
  "list_item_step list_items raw =
     (let text = py_strip raw
      in if text \<noteq> [] \<and> length text > 5 \<and>
            \<not> contains text ''%{'' \<and>
            \<not> search_any [''login'', ''sign in'', ''subscribe'', ''newsletter''] (py_lower text)
         then (let text1 = sub_placeholder text
               in if py_strip text1 \<noteq> [] then list_items @ [py_strip text1] else list_items)
         else list_items)"

definition extract_list :: "string \<Rightarrow> html_list \<Rightarrow> (string \<times> string list) list" where
  "extract_list list_type list_elem =
     (if (case list_parent list_elem of
            None \<Rightarrow> False
          | Some name \<Rightarrow> name \<in> set [''nav'', ''header'', ''footer'', ''aside''])
      then []
      else if list_classes list_elem \<noteq> [] \<and>
              (\<exists>c \<in> set (list_classes list_elem).
                 contains (py_lower c) ''menu'' \<or> contains (py_lower c) ''nav'')
      then []
      else
        (let list_items = foldl list_item_step [] (list_li list_elem)
         in if list_items \<noteq> [] \<and> \<not> (\<forall>item \<in> set list_items. length item < 20)
            then [(list_type, list_items)]
            else []))"

definition extract_text_with_structure :: "document \<Rightarrow> string \<Rightarrow> content" where
  "extract_text_with_structure doc url =
     \<lparr>content_title = extract_title doc,
      content_meta_description = extract_meta_description doc,
      content_headings = extract_headings doc,
      content_paragraphs = extract_paragraphs (main_paragraphs doc),
      content_lists = concat (map (extract_list ''ul'') (main_ul doc)) @
                      concat (map (extract_list ''ol'') (main_ol doc)),
      content_url = (if url \<noteq> [] then Some url else None)\<rparr>"

section \<open>The domain quota\<close>

definition is_content_page :: "string \<times> page_record \<Rightarrow> bool" where
  "is_content_page entry = (py_lower (rec_type (snd entry)) \<in> set content_page_types)"

definition should_crawl_domain :: "config \<Rightarrow> state \<Rightarrow> string \<Rightarrow> bool" where
  "should_crawl_domain cfg s domain =
     (case map_of (knowledge_base s) domain of
        None \<Rightarrow> True
      | Some domain_data \<Rightarrow>
          (let domain_pages_count = int (length (d_pages domain_data));
               content_pages_count = int (length (filter is_content_page (d_pages domain_data)))
           in if content_pages_count \<ge> max_pages_per_domain cfg then False
              else if domain_pages_count \<ge> max_pages_per_domain cfg * 3 then False
              else True))"

section \<open>The robots gate\<close>

definition add_skipped :: "state \<Rightarrow> state" where
  "add_skipped s = s\<lparr>stats := (stats s)\<lparr>st_pages_skipped := st_pages_skipped (stats s) + 1\<rparr>\<rparr>"

text \<open>
  \<open>is_allowed_by_robots\<close> returns its answer and the state: it caches the parser of a site
  in \<open>robot_parsers\<close> when reading \<open>robots.txt\<close> succeeds, and counts a skipped page when
  the rules disallow the URL.
\<close>

definition is_allowed_by_robots :: "environment \<Rightarrow> config \<Rightarrow> string \<Rightarrow> state \<Rightarrow> bool \<times> state" where
  "is_allowed_by_robots env cfg url s =
     (if \<not> respect_robots cfg then (True, s)
      else
        (let parsed_url = urlparse url;
             domain = url_scheme parsed_url @ ''://'' @ url_netloc parsed_url
         in if domain \<notin> set (robot_parsers s) \<and> robots_read_fails env domain then (True, s)
            else
              (let s1 = (if domain \<notin> set (robot_parsers s)
                         then s\<lparr>robot_parsers := robot_parsers s @ [domain]\<rparr> else s);
                   is_allowed = robots_can_fetch env domain url
               in if \<not> is_allowed then (False, add_skipped s1) else (True, s1))))"

section \<open>Crawling a page\<close>

definition log_status_error :: "string \<Rightarrow> int \<Rightarrow> state \<Rightarrow> state" where
  "log_status_error url status_code s =
     s\<lparr>error_urls := error_urls s @
          [\<lparr>err_url = url,
            err_error = ''Failed to fetch '' @ url @ '': Status code '' @ str_int status_code,
            err_status_code = Some status_code, err_exception = None\<rparr>],
        stats := (stats s)\<lparr>st_errors := st_errors (stats s) + 1\<rparr>\<rparr>"

definition log_exception :: "string \<Rightarrow> string \<Rightarrow> state \<Rightarrow> state" where
  "log_exception url e s =
     s\<lparr>error_urls := error_urls s @
          [\<lparr>err_url = url, err_error = ''Error crawling '' @ url @ '': '' @ e,
            err_status_code = None, err_exception = Some e\<rparr>],
        stats := (stats s)\<lparr>st_errors := st_errors (stats s) + 1\<rparr>\<rparr>"

definition new_domain_record :: "string \<Rightarrow> domain_record" where
  "new_domain_record base_url =
     \<lparr>d_base_url = base_url, d_pages = [],
      d_stats = \<lparr>ds_pages_crawled = 0, ds_by_type = []\<rparr>\<rparr>"

definition ensure_domain :: "string \<Rightarrow> string \<Rightarrow> state \<Rightarrow> state" where
  "ensure_domain domain base_url s =
     (case map_of (knowledge_base s) domain of
        None \<Rightarrow>
          s\<lparr>knowledge_base := AList.update domain (new_domain_record base_url) (knowledge_base s)\<rparr>
      | Some domain_data \<Rightarrow> s)"

definition count_type :: "string \<Rightarrow> (string \<times> nat) list \<Rightarrow> (string \<times> nat) list" where
  "count_type page_type by_type =
     AList.update page_type
       ((case map_of by_type page_type of None \<Rightarrow> 0 | Some n \<Rightarrow> n) + 1) by_type"

text \<open>
  Lines 604 to 618: the page record is written under the cleaned URL, then the counters of
  the run and of the domain and the count of the page type go up by one.
\<close>

definition store_in_domain :: "string \<Rightarrow> page_record \<Rightarrow> domain_record \<Rightarrow> domain_record" where
  "store_in_domain url page domain_data =
     domain_data\<lparr>d_pages := AList.update url page (d_pages domain_data),
                 d_stats := \<lparr>ds_pages_crawled = ds_pages_crawled (d_stats domain_data) + 1,
                             ds_by_type = count_type (rec_type page) (ds_by_type (d_stats domain_data))\<rparr>\<rparr>"

definition store_page :: "string \<Rightarrow> string \<Rightarrow> page_record \<Rightarrow> state \<Rightarrow> state" where
  "store_page domain url page s =
     (case map_of (knowledge_base s) domain of
        None \<Rightarrow> s
      | Some domain_data \<Rightarrow>
          s\<lparr>knowledge_base := AList.update domain (store_in_domain url page domain_data) (knowledge_base s),
             stats := (stats s)\<lparr>st_pages_crawled := st_pages_crawled (stats s) + 1\<rparr>\<rparr>)"

subsection \<open>The links of a page\<close>

datatype link_rank = Front | Priority | Other

definition contains_any :: "string list \<Rightarrow> string \<Rightarrow> bool" where
  "contains_any patterns s = (\<exists>pattern \<in> set patterns. contains s pattern)"

definition rank_link :: "string \<Rightarrow> string \<Rightarrow> link_rank" where
  "rank_link base_domain lower_href =
     (if base_domain = ''www.caregiveraction.org'' then
        (if contains lower_href ''/toolbox/'' then Front
         else if contains_any [''/corporate-partners/'', ''/caregiver-story/'', ''/guide/'',
                   ''/blueprint-'', ''/hipaa-'', ''/stroke'', ''/traumatic-brain-injury/'',
                   ''/ptsd/'', ''/lighting-your-way/''] lower_href then Priority
         else Other)
      else if base_domain = ''www.asaging.org'' then Priority
      else if base_domain = ''www.webmd.com'' then
        (if contains_any [''/a-to-z-guides/'', ''/diet/news/'', ''/guide/''] lower_href
         then Priority else Other)
      else if base_domain = ''www.aarp.org'' then
        (if contains lower_href ''/caregiving/'' then Priority else Other)
      else if base_domain = ''www.nia.nih.gov'' then
        (if contains lower_href ''/research/'' then Priority else Other)
      else if base_domain = ''www.alz.org'' then
        (if contains_any [''/blog/'', ''/help-support/''] lower_href then Priority else Other)
      else if base_domain = ''www.ncoa.org'' then
        (if contains lower_href ''/older-adults/'' \<or> contains lower_href ''/caregivers/''
         then Priority else Other)
      else if base_domain = ''www.seniorliving.org'' then
        (if contains_any [''/care/'', ''/health/'', ''/finance/''] lower_href then Priority else Other)
      else
        (if contains_any [''article'', ''post'', ''blog'', ''news'', ''resource''] lower_href
         then Priority else Other))"

text \<open>
  One round of the loop over the links of a page (lines 651 to 730): \<open>acc\<close> is the pair of
  \<open>content_links\<close> and \<open>other_links\<close>, \<open>raw_href\<close> is \<open>link['href']\<close>.
\<close>

definition link_step ::
  "string \<Rightarrow> string \<Rightarrow> string set \<Rightarrow> string list \<times> string list \<Rightarrow> string \<Rightarrow> string list \<times> string list" where
  "link_step url base_domain visited acc raw_href =
     (let href = py_strip raw_href
      in if href = [] \<or> startswith href ''javascript:'' \<or> startswith href ''mailto:'' \<or>
            startswith href ''tel:''
         then acc
         else
           (let next_url = normalize_url href url
            in if next_url \<in> visited then acc
               else if is_internal_link next_url base_domain then
                 (case rank_link base_domain (py_lower next_url) of
                    Front \<Rightarrow> (next_url # fst acc, snd acc)
                  | Priority \<Rightarrow> (fst acc @ [next_url], snd acc)
                  | Other \<Rightarrow> (fst acc, snd acc @ [next_url]))
               else acc))"

definition partition_links ::
  "string \<Rightarrow> string \<Rightarrow> string set \<Rightarrow> string list \<Rightarrow> string list \<times> string list" where
  "partition_links url base_domain visited hrefs =
     foldl (link_step url base_domain visited) ([], []) hrefs"

subsection \<open>The recursion\<close>

text \<open>
  \<open>crawl_page\<close> calls itself for the links of the page it has stored, so the model takes
  fuel: the number of nested calls it may make. \<open>None\<close> is a crawl cut off by the fuel.
  \<open>crawl_each\<close> is a loop over a list of links, \<open>step\<close> being its body;
  \<open>link_step_of\<close> is the body of the two loops of \<open>crawl_page\<close>.
\<close>

fun crawl_each :: "(string \<Rightarrow> state \<Rightarrow> state option) \<Rightarrow> string list \<Rightarrow> state \<Rightarrow> state option" where
  "crawl_each step [] s = Some s"
| "crawl_each step (next_url # rest) s =
     (case step next_url s of None \<Rightarrow> None | Some s1 \<Rightarrow> crawl_each step rest s1)"

text \<open>
  The end of \<open>crawl_page\<close> (lines 645 to 740): the links of the stored page are sorted
  into \<open>content_links\<close> and \<open>other_links\<close>, then both lists are crawled, the quota of
  the domain being checked before each call. \<open>recurse\<close> is \<open>crawl_page\<close> for a link, one
  level deeper.
\<close>

definition link_step_of ::
  "(string \<Rightarrow> state \<Rightarrow> state option) \<Rightarrow> config \<Rightarrow> string \<Rightarrow> string \<Rightarrow> state \<Rightarrow> state option" where
  "link_step_of recurse cfg domain =
     (\<lambda>next_url s. if should_crawl_domain cfg s domain then recurse next_url s else Some s)"

definition follow_links ::
  "(string \<Rightarrow> state \<Rightarrow> state option) \<Rightarrow> config \<Rightarrow> string \<Rightarrow> string \<Rightarrow> string \<Rightarrow>
   document \<Rightarrow> state \<Rightarrow> state option" where
  "follow_links recurse cfg url base_domain domain soup s =
     (case link_fault soup of
        Some e \<Rightarrow> Some (log_exception url e s)
      | None \<Rightarrow>
          (let links = partition_links url base_domain (visited_urls s) (doc_hrefs soup)
           in case crawl_each (link_step_of recurse cfg domain) (fst links) s of
                None \<Rightarrow> None
              | Some s1 \<Rightarrow> crawl_each (link_step_of recurse cfg domain) (snd links) s1))"

text \<open>
  The part of \<open>crawl_page\<close> after a page has come back with status 200 and an HTML content
  type (lines 572 to 643).
\<close>

definition stored_page :: "config \<Rightarrow> string \<Rightarrow> string \<Rightarrow> nat \<Rightarrow> document \<Rightarrow> page_record" where
  "stored_page cfg url base_url depth soup =
     \<lparr>rec_type = classify_page cfg url base_url (Some soup),
      rec_content = extract_text_with_structure soup url,
      rec_depth = depth\<rparr>"

definition process_page ::
  "(string \<Rightarrow> state \<Rightarrow> state option) \<Rightarrow> config \<Rightarrow> string \<Rightarrow> string \<Rightarrow> string \<Rightarrow> nat \<Rightarrow>
   document \<Rightarrow> state \<Rightarrow> state option" where
  "process_page recurse cfg url base_url base_domain depth soup s =
     (case processing_fault soup of
        Some e \<Rightarrow> Some (log_exception url e s)
      | None \<Rightarrow>
          (let page_type = classify_page cfg url base_url (Some soup)
           in if content_only cfg \<and> \<not> is_content_rich_page page_type (Some soup) \<and>
                 page_type \<noteq> ''homepage''
              then Some (add_skipped s)
              else
                (let domain = get_domain base_url;
                     s1 = ensure_domain domain base_url s
                 in if \<not> should_crawl_domain cfg s1 domain then Some (add_skipped s1)
                    else
                      (let s2 = store_page domain url (stored_page cfg url base_url depth soup) s1
                       in if \<not> should_crawl_domain cfg s2 domain then Some s2
                          else follow_links recurse cfg url base_domain domain soup s2))))"

definition html_content_type :: "string \<Rightarrow> bool" where
  "html_content_type content_type = contains (py_lower content_type) ''text/html''"

definition mark_visited :: "string \<Rightarrow> state \<Rightarrow> state" where
  "mark_visited url s = s\<lparr>visited_urls := insert url (visited_urls s)\<rparr>"

definition log_fetch :: "string \<Rightarrow> state \<Rightarrow> state" where
  "log_fetch url s = s\<lparr>fetched := fetched s @ [url]\<rparr>"

text \<open>
  The answer of the network is looked at after \<open>log_fetch\<close>: \<open>requests.get\<close> has been
  called whatever it answers.
\<close>

definition handle_response ::
  "(string \<Rightarrow> state \<Rightarrow> state option) \<Rightarrow> config \<Rightarrow> string \<Rightarrow> string \<Rightarrow> string \<Rightarrow> nat \<Rightarrow>
   fetch_result \<Rightarrow> state \<Rightarrow> state option" where
  "handle_response recurse cfg url base_url base_domain depth response s =
     (case response of
        FetchRaises e \<Rightarrow> Some (log_exception url e s)
      | Response status_code content_type soup \<Rightarrow>
          if status_code \<noteq> 200 then Some (log_status_error url status_code s)
          else if \<not> html_content_type content_type then Some (add_skipped s)
          else process_page recurse cfg url base_url base_domain depth soup s)"

primrec crawl_page ::
  "nat \<Rightarrow> environment \<Rightarrow> config \<Rightarrow> string \<Rightarrow> string \<Rightarrow> string \<Rightarrow> nat \<Rightarrow> state \<Rightarrow> state option" where
  "crawl_page 0 env cfg url0 base_url base_domain depth s = None"
| "crawl_page (Suc fuel) env cfg url0 base_url base_domain depth s =
     (let url = clean_url url0
      in if url \<in> visited_urls s then Some s
         else if \<not> should_crawl_domain cfg s (get_domain url) then Some (add_skipped s)
         else
           (case is_allowed_by_robots env cfg url s of
              (False, s1) \<Rightarrow> Some s1
            | (True, s1) \<Rightarrow>
                handle_response
                  (\<lambda>next_url s'. crawl_page fuel env cfg next_url base_url base_domain (depth + 1) s')
                  cfg url base_url base_domain depth (http_get env url)
                  (log_fetch url (mark_visited url s1))))"

section \<open>Crawling sites\<close>

definition reset_stats :: "string \<Rightarrow> state \<Rightarrow> state" where
  "reset_stats base_domain s =
     (case map_of (knowledge_base s) base_domain of
        None \<Rightarrow> s
      | Some domain_data \<Rightarrow>
          s\<lparr>knowledge_base :=
               AList.update base_domain
                 (domain_data\<lparr>d_stats := \<lparr>ds_pages_crawled = 0, ds_by_type = []\<rparr>\<rparr>)
                 (knowledge_base s)\<rparr>)"

definition seed_url :: "string \<Rightarrow> string" where
  "seed_url url = (if \<not> endswith url ''/'' then url @ ''/'' else url)"

definition seed_base_url :: "string \<Rightarrow> string" where
  "seed_base_url url =
     url_scheme (urlparse (seed_url url)) @ ''://'' @ url_netloc (urlparse (seed_url url))"

definition crawl_website :: "nat \<Rightarrow> environment \<Rightarrow> config \<Rightarrow> string \<Rightarrow> state \<Rightarrow> state option" where
  "crawl_website fuel env cfg url0 s =
     (let url = seed_url url0;
          base_url = seed_base_url url0;
          base_domain = get_domain url
      in crawl_page fuel env cfg url base_url base_domain 0 (reset_stats base_domain s))"

section \<open>Removing duplicate paragraphs\<close>

text \<open>
  \<open>paragraph_hashes\<close> maps the hash of a paragraph to the URL of the page that registered
  it. The hash function (MD5 of the normalised text, as hexadecimal digits) is the
  parameter \<open>digest\<close>.
\<close>

definition normalized_text :: "string \<Rightarrow> string" where
  "normalized_text paragraph = py_strip (collapse_spaces (py_lower paragraph))"

definition dedup_step ::
  "(string \<Rightarrow> 'h) \<Rightarrow> string \<Rightarrow> ('h \<rightharpoonup> string) \<times> string list \<Rightarrow> string \<Rightarrow> ('h \<rightharpoonup> string) \<times> string list" where
  "dedup_step digest url acc paragraph =
     (let text_hash = digest (normalized_text paragraph)
      in case fst acc text_hash of
           None \<Rightarrow> ((fst acc)(text_hash \<mapsto> url), snd acc @ [paragraph])
         | Some owner \<Rightarrow>
             if owner \<noteq> url then (fst acc, snd acc @ [paragraph])
             else acc)"

definition dedup_page ::
  "(string \<Rightarrow> 'h) \<Rightarrow> ('h \<rightharpoonup> string) \<Rightarrow> string \<times> page_record \<Rightarrow> ('h \<rightharpoonup> string) \<times> (string \<times> page_record)" where
  "dedup_page digest paragraph_hashes entry =
     (let r = foldl (dedup_step digest (fst entry)) (paragraph_hashes, [])
                (content_paragraphs (rec_content (snd entry)))
      in (fst r,
          (fst entry, (snd entry)\<lparr>rec_content := (rec_content (snd entry))\<lparr>content_paragraphs := snd r\<rparr>\<rparr>)))"

fun dedup_pages ::
  "(string \<Rightarrow> 'h) \<Rightarrow> ('h \<rightharpoonup> string) \<Rightarrow> (string \<times> page_record) list \<Rightarrow>
   ('h \<rightharpoonup> string) \<times> (string \<times> page_record) list" where
  "dedup_pages digest paragraph_hashes [] = (paragraph_hashes, [])"
| "dedup_pages digest paragraph_hashes (entry # rest) =
     (let r = dedup_page digest paragraph_hashes entry;
          rs = dedup_pages digest (fst r) rest
      in (fst rs, snd r # snd rs))"

fun dedup_domains ::
  "(string \<Rightarrow> 'h) \<Rightarrow> ('h \<rightharpoonup> string) \<Rightarrow> (string \<times> domain_record) list \<Rightarrow>
   ('h \<rightharpoonup> string) \<times> (string \<times> domain_record) list" where
  "dedup_domains digest paragraph_hashes [] = (paragraph_hashes, [])"
| "dedup_domains digest paragraph_hashes (entry # rest) =
     (let r = dedup_pages digest paragraph_hashes (d_pages (snd entry));
          rs = dedup_domains digest (fst r) rest
      in (fst rs, (fst entry, (snd entry)\<lparr>d_pages := snd r\<rparr>) # snd rs))"

definition remove_duplicate_content :: "(string \<Rightarrow> 'h) \<Rightarrow> state \<Rightarrow> state" where
  "remove_duplicate_content digest s =
     s\<lparr>knowledge_base := snd (dedup_domains digest Map.empty (knowledge_base s))\<rparr>"

text \<open>\<open>crawl_websites\<close>, without writing the output file.\<close>

fun crawl_sites :: "nat \<Rightarrow> environment \<Rightarrow> config \<Rightarrow> string list \<Rightarrow> state \<Rightarrow> state option" where
  "crawl_sites fuel env cfg [] s = Some s"
| "crawl_sites fuel env cfg (url # urls) s =
     (case crawl_website fuel env cfg url s of
        None \<Rightarrow> None
      | Some s1 \<Rightarrow> crawl_sites fuel env cfg urls s1)"

definition crawl_websites ::
  "nat \<Rightarrow> environment \<Rightarrow> config \<Rightarrow> (string \<Rightarrow> 'h) \<Rightarrow> string list \<Rightarrow> state \<Rightarrow> state option" where
  "crawl_websites fuel env cfg digest urls s =
     map_option (remove_duplicate_content digest) (crawl_sites fuel env cfg urls s)"

section \<open>Metadata\<close>

definition add_metadata :: "state \<Rightarrow> state" where
  "add_metadata s =
     s\<lparr>kb_metadata := Some
          \<lparr>md_total_domains = length (knowledge_base s),
           md_total_pages = sum_list (map (\<lambda>entry. length (d_pages (snd entry))) (knowledge_base s)),
           md_pages_crawled = st_pages_crawled (stats s),
           md_pages_skipped = st_pages_skipped (stats s),
           md_errors = st_errors (stats s),
           md_error_list = take 100 (error_urls s)\<rparr>\<rparr>"

section \<open>Invariants of a run\<close>

text \<open>The URLs under which pages are stored, over all domains.\<close>

definition kb_keys :: "(string \<times> domain_record) list \<Rightarrow> string set" where
  "kb_keys kb = (\<Union>entry \<in> set kb. fst ` set (d_pages (snd entry)))"

definition page_keys :: "state \<Rightarrow> string set" where
  "page_keys s = kb_keys (knowledge_base s)"

definition keys_visited :: "state \<Rightarrow> bool" where
  "keys_visited s = (page_keys s \<subseteq> visited_urls s)"

text \<open>
  An error is counted when it is logged, so the counter and the log agree.
\<close>

text \<open>
  \<open>preserved_by_steps cfg domain I\<close>: every state change that \<open>crawl_page\<close> makes while it
  stores pages under \<open>domain\<close> keeps \<open>I\<close>.
\<close>

definition preserved_by_steps :: "config \<Rightarrow> string \<Rightarrow> (state \<Rightarrow> bool) \<Rightarrow> bool" where
  "preserved_by_steps cfg domain I =
     ((\<forall>s. I s \<longrightarrow> I (add_skipped s)) \<and>
      (\<forall>d s. I s \<longrightarrow> I (s\<lparr>robot_parsers := robot_parsers s @ [d]\<rparr>)) \<and>
      (\<forall>u s. I s \<and> keys_visited s \<and> u \<notin> visited_urls s \<longrightarrow> I (log_fetch u (mark_visited u s))) \<and>
      (\<forall>u e s. I s \<longrightarrow> I (log_exception u e s)) \<and>
      (\<forall>u c s. I s \<longrightarrow> I (log_status_error u c s)) \<and>
      (\<forall>b s. I s \<longrightarrow> I (ensure_domain domain b s)) \<and>
      (\<forall>u p s. I s \<and> keys_visited s \<and> u \<in> visited_urls s \<and> u \<notin> page_keys s \<and>
                should_crawl_domain cfg s domain \<longrightarrow> I (store_page domain u p s)))"

definition errors_counted :: "state \<Rightarrow> bool" where
  "errors_counted s = (st_errors (stats s) = length (error_urls s))"

text \<open>
  The quota of a domain record: the pages whose type is in the content type set, and all
  its pages.
\<close>

definition content_pages :: "domain_record \<Rightarrow> nat" where
  "content_pages r =
     length (filter (\<lambda>entry. rec_type (snd entry) \<in> set content_page_types) (d_pages r))"

definition within_quota :: "config \<Rightarrow> state \<Rightarrow> bool" where
  "within_quota cfg s =
     (\<forall>entry \<in> set (knowledge_base s).
        int (content_pages (snd entry)) \<le> max_pages_per_domain cfg \<and>
        int (length (d_pages (snd entry))) \<le> 3 * max_pages_per_domain cfg)"

text \<open>A run of calls of \<open>crawl_page\<close>, each with its URL, base URL, base domain and depth.\<close>

fun crawl_calls ::
  "nat \<Rightarrow> environment \<Rightarrow> config \<Rightarrow> (string \<times> string \<times> string \<times> nat) list \<Rightarrow> state \<Rightarrow> state option" where
  "crawl_calls fuel env cfg [] s = Some s"
| "crawl_calls fuel env cfg ((url, base_url, base_domain, depth) # calls) s =
     (case crawl_page fuel env cfg url base_url base_domain depth s of
        None \<Rightarrow> None
      | Some s1 \<Rightarrow> crawl_calls fuel env cfg calls s1)"

text \<open>No URL is fetched twice, and a fetched URL has been marked as visited.\<close>

definition fetched_once :: "state \<Rightarrow> bool" where
  "fetched_once s = (distinct (fetched s) \<and> set (fetched s) \<subseteq> visited_urls s)"

definition unique_page_keys :: "state \<Rightarrow> bool" where
  "unique_page_keys s =
     (\<forall>entry \<in> set (knowledge_base s). distinct (map fst (d_pages (snd entry))))"

text \<open>
  The count of a page type in \<open>by_type\<close> of a domain, and the number of pages of that type
  in \<open>pages\<close> of the domain; both are 0 for a domain that is not in the knowledge base.
\<close>

definition by_type_count :: "state \<Rightarrow> string \<Rightarrow> string \<Rightarrow> nat" where
  "by_type_count s domain t =
     (case map_of (knowledge_base s) domain of
        None \<Rightarrow> 0
      | Some r \<Rightarrow> (case map_of (ds_by_type (d_stats r)) t of None \<Rightarrow> 0 | Some n \<Rightarrow> n))"

definition pages_of_type :: "state \<Rightarrow> string \<Rightarrow> string \<Rightarrow> nat" where
  "pages_of_type s domain t =
     (case map_of (knowledge_base s) domain of
        None \<Rightarrow> 0
      | Some r \<Rightarrow> length (filter (\<lambda>entry. rec_type (snd entry) = t) (d_pages r)))"

definition stats_agree :: "state \<Rightarrow> bool" where
  "stats_agree s = (\<forall>domain t. by_type_count s domain t = pages_of_type s domain t)"

section \<open>Example sites\<close>

text \<open>
  A site \<open>example.org\<close>: the page \<open>/toolbox/\<close> links to \<open>/toolbox/a\<close>, \<open>/about\<close> and
  \<open>/toolbox/b\<close>; the toolbox pages carry an article element. \<open>about_first_env\<close> is the same
  site with the link to \<open>/about\<close> first.
\<close>

definition empty_doc :: document where
  "empty_doc = \<lparr>doc_title = None, doc_meta_description = None, doc_paragraphs = [],
     doc_article_schema = False, doc_classes = [], doc_lists = 0, main_headings = [],
     main_paragraphs = [], main_ul = [], main_ol = [], doc_hrefs = [],
     processing_fault = None, link_fault = None\<rparr>"

definition article_doc :: "string list \<Rightarrow> document" where
  "article_doc hrefs = empty_doc\<lparr>doc_article_schema := True, doc_hrefs := hrefs\<rparr>"

definition demo_config :: config where
  "demo_config = \<lparr>max_pages_per_domain = 2, respect_robots = False, content_only = True,
     avoid_iteration = avoid_page_types\<rparr>"

definition demo_config_rev :: config where
  "demo_config_rev = demo_config\<lparr>avoid_iteration := rev avoid_page_types\<rparr>"

definition site_pages :: "string list \<Rightarrow> string \<Rightarrow> fetch_result" where
  "site_pages seed_hrefs url =
     (if url = ''https://example.org/toolbox/'' then
        Response 200 ''text/html; charset=utf-8'' (article_doc seed_hrefs)
      else if url = ''https://example.org/toolbox/a'' then
        Response 200 ''text/html'' (article_doc [])
      else if url = ''https://example.org/toolbox/b'' then
        Response 200 ''text/html'' (article_doc [])
      else if url = ''https://example.org/about'' then
        Response 200 ''text/html'' empty_doc
      else if url = ''https://example.org/about/'' then
        Response 200 ''text/html'' empty_doc
      else if url = ''https://example.org/broken'' then
        Response 200 ''text/html'' (empty_doc\<lparr>processing_fault := Some ''malformed''\<rparr>)
      else if url = ''https://example.org/feed.xml'' then
        Response 200 ''application/xml'' empty_doc
      else if url = ''https://example.org/down'' then
        FetchRaises ''timed out''
      else if startswith url ''https://example.org/plain/'' then
        Response 200 ''text/html'' empty_doc
      else Response 404 ''text/html'' empty_doc)"

definition toolbox_env :: environment where
  "toolbox_env =
     \<lparr>http_get = site_pages [''/toolbox/a'', ''/about'', ''/toolbox/b''],
      robots_read_fails = (\<lambda>domain. False),
      robots_can_fetch = (\<lambda>domain url. \<not> contains url ''/private/'')\<rparr>"

definition about_first_env :: environment where
  "about_first_env = toolbox_env\<lparr>http_get := site_pages [''/about'', ''/toolbox/a'', ''/toolbox/b'']\<rparr>"

text \<open>
  The same site with a front page that links to two missing pages, a page that times out,
  three plain pages, \<open>/about\<close> and a feed.
\<close>

definition errors_env :: environment where
  "errors_env =
     toolbox_env\<lparr>http_get := site_pages [''/missing1'', ''/plain/1'', ''/down'', ''/about'',
                                        ''/plain/2'', ''/missing2'', ''/feed.xml'', ''/plain/3'']\<rparr>"

definition toolbox_seed :: string where
  "toolbox_seed = ''https://example.org/toolbox/''"

text \<open>What a run that may have been cut off shows of its final state.\<close>

definition fetched_of :: "state option \<Rightarrow> string list" where
  "fetched_of r = (case r of None \<Rightarrow> [] | Some s \<Rightarrow> fetched s)"

definition stored_of :: "state option \<Rightarrow> string \<Rightarrow> (string \<times> string \<times> nat) list" where
  "stored_of r domain =
     (case r of
        None \<Rightarrow> []
      | Some s \<Rightarrow>
          (case map_of (knowledge_base s) domain of
             None \<Rightarrow> []
           | Some d \<Rightarrow> map (\<lambda>entry. (fst entry, rec_type (snd entry), rec_depth (snd entry)))
                         (d_pages d)))"

definition stats_of :: "state option \<Rightarrow> nat \<times> nat \<times> nat" where
  "stats_of r =
     (case r of
        None \<Rightarrow> (0, 0, 0)
      | Some s \<Rightarrow> (st_pages_crawled (stats s), st_pages_skipped (stats s), st_errors (stats s)))"

definition final_state :: "state option \<Rightarrow> state" where
  "final_state r = (case r of None \<Rightarrow> init_state | Some s \<Rightarrow> s)"

text \<open>
  A state in which \<open>example.org\<close> holds two content pages, the quota of \<open>demo_config\<close>.
\<close>

definition article_page :: "string \<Rightarrow> nat \<Rightarrow> page_record" where
  "article_page url depth =
     \<lparr>rec_type = ''article'',
      rec_content = extract_text_with_structure (article_doc []) url,
      rec_depth = depth\<rparr>"

definition full_domain :: domain_record where
  "full_domain =
     \<lparr>d_base_url = ''https://example.org'',
      d_pages = [(''https://example.org/toolbox/'', article_page ''https://example.org/toolbox/'' 0),
                 (''https://example.org/toolbox/a'', article_page ''https://example.org/toolbox/a'' 1)],
      d_stats = \<lparr>ds_pages_crawled = 2, ds_by_type = [(''article'', 2)]\<rparr>\<rparr>"

definition full_state :: state where
  "full_state =
     init_state\<lparr>knowledge_base := [(''example.org'', full_domain)],
       visited_urls := {''https://example.org/toolbox/'', ''https://example.org/toolbox/a''},
       stats := \<lparr>st_pages_crawled = 2, st_pages_skipped = 0, st_errors = 0\<rparr>,
       fetched := [''https://example.org/toolbox/'', ''https://example.org/toolbox/a'']\<rparr>"

lemma set_update_subset: "set (AList.update k v al) \<subseteq> insert (k, v) (set al)"
  by (induction al) auto

lemma kb_keys_update: "kb_keys (AList.update d r kb) \<subseteq> fst ` set (d_pages r) \<union> kb_keys kb"
proof
  fix x assume "x \<in> kb_keys (AList.update d r kb)"
  then obtain e where e: "e \<in> set (AList.update d r kb)" and x: "x \<in> fst ` set (d_pages (snd e))"
    unfolding kb_keys_def by blast
  from e set_update_subset[of d r kb] have "e = (d, r) \<or> e \<in> set kb" by blast
  then show "x \<in> fst ` set (d_pages r) \<union> kb_keys kb"
  proof
    assume "e = (d, r)" with x show ?thesis by simp
  next
    assume "e \<in> set kb" with x show ?thesis unfolding kb_keys_def by blast
  qed
qed

lemma kb_keys_member: "(d, r) \<in> set kb \<Longrightarrow> fst ` set (d_pages r) \<subseteq> kb_keys kb"
  unfolding kb_keys_def by force

lemma kb_simps [simp]:
  "knowledge_base (add_skipped s) = knowledge_base s"
  "knowledge_base (log_exception u e s) = knowledge_base s"
  "knowledge_base (log_status_error u c s) = knowledge_base s"
  "knowledge_base (mark_visited u s) = knowledge_base s"
  "knowledge_base (log_fetch u s) = knowledge_base s"
  by (simp_all add: add_skipped_def log_exception_def log_status_error_def mark_visited_def
      log_fetch_def)

lemma visited_simps [simp]:
  "visited_urls (add_skipped s) = visited_urls s"
  "visited_urls (log_exception u e s) = visited_urls s"
  "visited_urls (log_status_error u c s) = visited_urls s"
  "visited_urls (mark_visited u s) = insert u (visited_urls s)"
  "visited_urls (log_fetch u s) = visited_urls s"
  by (simp_all add: add_skipped_def log_exception_def log_status_error_def mark_visited_def
      log_fetch_def)

lemma visited_ensure_domain [simp]: "visited_urls (ensure_domain d b s) = visited_urls s"
  by (cases "map_of (knowledge_base s) d") (simp_all add: ensure_domain_def)

lemma visited_store_page [simp]: "visited_urls (store_page d u p s) = visited_urls s"
  by (cases "map_of (knowledge_base s) d") (simp_all add: store_page_def)

lemma robots_cases:
  "snd (is_allowed_by_robots env cfg u s) = s \<or>
   (\<exists>d. snd (is_allowed_by_robots env cfg u s) = s\<lparr>robot_parsers := robot_parsers s @ [d]\<rparr>) \<or>
   snd (is_allowed_by_robots env cfg u s) = add_skipped s \<or>
   (\<exists>d. snd (is_allowed_by_robots env cfg u s) = add_skipped (s\<lparr>robot_parsers := robot_parsers s @ [d]\<rparr>))"
  unfolding is_allowed_by_robots_def Let_def by (simp only: split: if_splits) auto

lemma page_keys_simps [simp]:
  "page_keys (add_skipped s) = page_keys s"
  "page_keys (log_exception u e s) = page_keys s"
  "page_keys (log_status_error u c s) = page_keys s"
  "page_keys (mark_visited u s) = page_keys s"
  "page_keys (log_fetch u s) = page_keys s"
  by (simp_all add: page_keys_def)

lemma page_keys_robots [simp]: "page_keys (snd (is_allowed_by_robots env cfg u s)) = page_keys s"
  using robots_cases[of env cfg u s] by (auto simp: page_keys_def)

lemma visited_robots [simp]: "visited_urls (snd (is_allowed_by_robots env cfg u s)) = visited_urls s"
  using robots_cases[of env cfg u s] by auto

lemma page_keys_ensure_domain: "page_keys (ensure_domain d b s) \<subseteq> page_keys s"
proof (cases "map_of (knowledge_base s) d")
  case None
  then have "knowledge_base (ensure_domain d b s) = AList.update d (new_domain_record b) (knowledge_base s)"
    by (simp add: ensure_domain_def)
  moreover have "d_pages (new_domain_record b) = []" by (simp add: new_domain_record_def)
  ultimately show ?thesis
    using kb_keys_update[of d "new_domain_record b" "knowledge_base s"]
    unfolding page_keys_def by simp
next
  case (Some r)
  then show ?thesis by (simp add: ensure_domain_def)
qed

lemma page_keys_store_page_absent: "map_of (knowledge_base s) d = None \<Longrightarrow> page_keys (store_page d u p s) \<subseteq> insert u (page_keys s)"
  by (auto simp add: store_page_def)

lemma keys_store_in_domain: "fst ` set (d_pages (store_in_domain u p r)) = {u} \<union> fst ` set (d_pages r)"
  by (simp add: store_in_domain_def dom_update)

lemma kb_store_page: "map_of (knowledge_base s) d = Some r \<Longrightarrow> knowledge_base (store_page d u p s) = AList.update d (store_in_domain u p r) (knowledge_base s)"
  by (simp add: store_page_def)


lemma page_keys_store_page: "page_keys (store_page d u p s) \<subseteq> insert u (page_keys s)"
proof (cases "map_of (knowledge_base s) d")
  case None
  then show ?thesis by (rule page_keys_store_page_absent)
next
  case (Some r)
  have r_in: "(d, r) \<in> set (knowledge_base s)" using Some by (rule map_of_SomeD)
  then have a: "fst ` set (d_pages r) \<subseteq> kb_keys (knowledge_base s)"
    by (rule kb_keys_member)
  have c: "kb_keys (AList.update d (store_in_domain u p r) (knowledge_base s))
      \<subseteq> fst ` set (d_pages (store_in_domain u p r)) \<union> kb_keys (knowledge_base s)"
    by (rule kb_keys_update)
  have "kb_keys (AList.update d (store_in_domain u p r) (knowledge_base s))
      \<subseteq> insert u (kb_keys (knowledge_base s))"
  proof
    fix x assume "x \<in> kb_keys (AList.update d (store_in_domain u p r) (knowledge_base s))"
    with c have "x \<in> fst ` set (d_pages (store_in_domain u p r)) \<or> x \<in> kb_keys (knowledge_base s)"
      by blast
    then have "x \<in> {u} \<union> fst ` set (d_pages r) \<or> x \<in> kb_keys (knowledge_base s)"
      unfolding keys_store_in_domain .
    with a show "x \<in> insert u (kb_keys (knowledge_base s))" by blast
  qed
  then show ?thesis unfolding page_keys_def kb_store_page[OF Some] .
qed

lemma crawl_each_preserves:
  assumes "\<And>u s s'. J s \<Longrightarrow> step u s = Some s' \<Longrightarrow> J s'"
    and "J s" and "crawl_each step us s = Some s'"
  shows "J s'"
  using assms(2,3)
proof (induction us arbitrary: s)
  case Nil
  then show ?case by simp
next
  case (Cons u us)
  from Cons.prems(2) obtain s1 where a: "step u s = Some s1" and b: "crawl_each step us s1 = Some s'"
    by (cases "step u s") simp_all
  from assms(1)[OF Cons.prems(1) a] have "J s1" .
  then show ?case using b by (rule Cons.IH)
qed

lemma follow_links_cases:
  assumes "follow_links recurse cfg url base_domain domain soup s = Some s'"
  shows "(\<exists>e. link_fault soup = Some e \<and> s' = log_exception url e s) \<or>
         (\<exists>s1. link_fault soup = None \<and>
            crawl_each (link_step_of recurse cfg domain)
              (fst (partition_links url base_domain (visited_urls s) (doc_hrefs soup))) s = Some s1 \<and>
            crawl_each (link_step_of recurse cfg domain)
              (snd (partition_links url base_domain (visited_urls s) (doc_hrefs soup))) s1 = Some s')"
proof (cases "link_fault soup")
  case (Some e)
  with assms show ?thesis by (simp add: follow_links_def)
next
  case None
  show ?thesis
  proof (cases "crawl_each (link_step_of recurse cfg domain)
              (fst (partition_links url base_domain (visited_urls s) (doc_hrefs soup))) s")
    case a: None
    with None assms show ?thesis by (simp add: follow_links_def Let_def link_step_of_def)
  next
    case a: (Some s1)
    with None assms show ?thesis by (simp add: follow_links_def Let_def link_step_of_def)
  qed
qed

lemma follow_links_preserves:
  assumes rec: "\<And>u s s'. J s \<Longrightarrow> recurse u s = Some s' \<Longrightarrow> J s'"
    and err: "\<And>e s. J s \<Longrightarrow> J (log_exception url e s)"
    and J: "J s" and run: "follow_links recurse cfg url base_domain domain soup s = Some s'"
  shows "J s'"
proof -
  have step: "\<And>u s s'. J s \<Longrightarrow> link_step_of recurse cfg domain u s = Some s' \<Longrightarrow> J s'"
  proof -
    fix u s s' assume j: "J s" and st: "link_step_of recurse cfg domain u s = Some s'"
    show "J s'"
    proof (cases "should_crawl_domain cfg s domain")
      case True
      with st have "recurse u s = Some s'" by (simp add: link_step_of_def)
      with j show ?thesis by (rule rec)
    next
      case False
      with st have "s' = s" by (simp add: link_step_of_def)
      with j show ?thesis by simp
    qed
  qed
  from follow_links_cases[OF run] show ?thesis
  proof
    assume "\<exists>e. link_fault soup = Some e \<and> s' = log_exception url e s"
    then obtain e where "s' = log_exception url e s" by blast
    with err[OF J] show ?thesis by simp
  next
    assume "\<exists>s1. link_fault soup = None \<and>
            crawl_each (link_step_of recurse cfg domain)
              (fst (partition_links url base_domain (visited_urls s) (doc_hrefs soup))) s = Some s1 \<and>
            crawl_each (link_step_of recurse cfg domain)
              (snd (partition_links url base_domain (visited_urls s) (doc_hrefs soup))) s1 = Some s'"
    then obtain s1 where
      a: "crawl_each (link_step_of recurse cfg domain)
              (fst (partition_links url base_domain (visited_urls s) (doc_hrefs soup))) s = Some s1"
      and b: "crawl_each (link_step_of recurse cfg domain)
              (snd (partition_links url base_domain (visited_urls s) (doc_hrefs soup))) s1 = Some s'"
      by blast
    have "J s1" using step J a by (rule crawl_each_preserves)
    with step show ?thesis using b by (rule crawl_each_preserves)
  qed
qed

lemma process_page_cases:
  assumes "process_page recurse cfg url base_url base_domain depth soup s = Some s'"
  shows "(\<exists>e. processing_fault soup = Some e \<and> s' = log_exception url e s) \<or>
         (processing_fault soup = None \<and> s' = add_skipped s) \<or>
         (processing_fault soup = None \<and>
          \<not> should_crawl_domain cfg (ensure_domain (get_domain base_url) base_url s) (get_domain base_url) \<and>
          s' = add_skipped (ensure_domain (get_domain base_url) base_url s)) \<or>
         (processing_fault soup = None \<and>
          should_crawl_domain cfg (ensure_domain (get_domain base_url) base_url s) (get_domain base_url) \<and>
          \<not> should_crawl_domain cfg
              (store_page (get_domain base_url) url (stored_page cfg url base_url depth soup)
                 (ensure_domain (get_domain base_url) base_url s)) (get_domain base_url) \<and>
          s' = store_page (get_domain base_url) url (stored_page cfg url base_url depth soup)
                 (ensure_domain (get_domain base_url) base_url s)) \<or>
         (processing_fault soup = None \<and>
          should_crawl_domain cfg (ensure_domain (get_domain base_url) base_url s) (get_domain base_url) \<and>
          follow_links recurse cfg url base_domain (get_domain base_url) soup
            (store_page (get_domain base_url) url (stored_page cfg url base_url depth soup)
               (ensure_domain (get_domain base_url) base_url s)) = Some s')"
  using assms
  by (auto simp: process_page_def Let_def stored_page_def split: option.splits if_splits)

lemma handle_response_cases:
  assumes "handle_response recurse cfg url base_url base_domain depth response s = Some s'"
  shows "(\<exists>e. response = FetchRaises e \<and> s' = log_exception url e s) \<or>
         (\<exists>c t d. response = Response c t d \<and> c \<noteq> 200 \<and> s' = log_status_error url c s) \<or>
         (\<exists>t d. response = Response 200 t d \<and> \<not> html_content_type t \<and> s' = add_skipped s) \<or>
         (\<exists>t d. response = Response 200 t d \<and> html_content_type t \<and>
            process_page recurse cfg url base_url base_domain depth d s = Some s')"
  using assms by (cases response) (auto simp: handle_response_def split: if_splits)

lemma crawl_page_cases:
  assumes "crawl_page (Suc fuel) env cfg url0 base_url base_domain depth s = Some s'"
  shows "(clean_url url0 \<in> visited_urls s \<and> s' = s) \<or>
         (clean_url url0 \<notin> visited_urls s \<and>
          \<not> should_crawl_domain cfg s (get_domain (clean_url url0)) \<and> s' = add_skipped s) \<or>
         (clean_url url0 \<notin> visited_urls s \<and>
          should_crawl_domain cfg s (get_domain (clean_url url0)) \<and>
          \<not> fst (is_allowed_by_robots env cfg (clean_url url0) s) \<and>
          s' = snd (is_allowed_by_robots env cfg (clean_url url0) s)) \<or>
         (clean_url url0 \<notin> visited_urls s \<and>
          should_crawl_domain cfg s (get_domain (clean_url url0)) \<and>
          fst (is_allowed_by_robots env cfg (clean_url url0) s) \<and>
          handle_response
            (\<lambda>next_url s'. crawl_page fuel env cfg next_url base_url base_domain (depth + 1) s')
            cfg (clean_url url0) base_url base_domain depth (http_get env (clean_url url0))
            (log_fetch (clean_url url0) (mark_visited (clean_url url0)
               (snd (is_allowed_by_robots env cfg (clean_url url0) s)))) = Some s')"
  using assms
  by (cases "is_allowed_by_robots env cfg (clean_url url0) s")
     (auto simp: Let_def split: if_splits bool.splits)

lemma process_page_preserves:
  assumes rec: "\<And>u s s'. I s \<and> keys_visited s \<Longrightarrow> recurse u s = Some s' \<Longrightarrow> I s' \<and> keys_visited s'"
    and skip: "\<And>s. I s \<Longrightarrow> I (add_skipped s)"
    and exn: "\<And>u e s. I s \<Longrightarrow> I (log_exception u e s)"
    and ens: "\<And>s. I s \<Longrightarrow> I (ensure_domain (get_domain base_url) base_url s)"
    and store: "\<And>u p s. I s \<Longrightarrow> keys_visited s \<Longrightarrow> u \<in> visited_urls s \<Longrightarrow> u \<notin> page_keys s \<Longrightarrow>
                  should_crawl_domain cfg s (get_domain base_url) \<Longrightarrow>
                  I (store_page (get_domain base_url) u p s)"
    and I: "I s" and kv: "keys_visited s" and vis: "url \<in> visited_urls s" and fresh: "url \<notin> page_keys s"
    and run: "process_page recurse cfg url base_url base_domain depth soup s = Some s'"
  shows "I s' \<and> keys_visited s'"
proof -
  define domain where "domain = get_domain base_url"
  define s1 where "s1 = ensure_domain domain base_url s"
  define page where "page = stored_page cfg url base_url depth soup"
  define s2 where "s2 = store_page domain url page s1"
  have I1: "I s1" unfolding s1_def domain_def using I by (rule ens)
  have pk1: "page_keys s1 \<subseteq> page_keys s" unfolding s1_def by (rule page_keys_ensure_domain)
  have kv1: "keys_visited s1" using kv pk1 unfolding keys_visited_def s1_def by simp
  have vis1: "url \<in> visited_urls s1" using vis by (simp add: s1_def)
  have fresh1: "url \<notin> page_keys s1" using fresh pk1 by blast
  have pk2: "page_keys s2 \<subseteq> insert url (page_keys s1)"
    unfolding s2_def by (rule page_keys_store_page)
  have kv2: "keys_visited s2"
    using pk2 kv1 vis1 unfolding keys_visited_def s2_def by auto
  have skipI: "\<And>s. I s \<and> keys_visited s \<Longrightarrow> I (add_skipped s) \<and> keys_visited (add_skipped s)"
    using skip by (simp add: keys_visited_def)
  have exnI: "\<And>e s. I s \<and> keys_visited s \<Longrightarrow> I (log_exception url e s) \<and> keys_visited (log_exception url e s)"
    using exn by (simp add: keys_visited_def)
  from process_page_cases[OF run] consider
      (fault) e where "s' = log_exception url e s"
    | (skipped) "s' = add_skipped s"
    | (quota) "s' = add_skipped s1"
    | (stored) "should_crawl_domain cfg s1 domain" "s' = s2"
    | (links) "should_crawl_domain cfg s1 domain" "follow_links recurse cfg url base_domain domain soup s2 = Some s'"
    unfolding domain_def s1_def s2_def page_def by blast
  then show ?thesis
  proof cases
    case fault
    with exnI I kv show ?thesis by simp
  next
    case skipped
    with skipI I kv show ?thesis by simp
  next
    case quota
    with skipI I1 kv1 show ?thesis by simp
  next
    case stored
    have "I s2" unfolding s2_def using I1 kv1 vis1 fresh1 stored(1) unfolding domain_def by (rule store)
    with kv2 stored(2) show ?thesis by simp
  next
    case links
    have "I s2" unfolding s2_def using I1 kv1 vis1 fresh1 links(1) unfolding domain_def by (rule store)
    with kv2 have I2: "I s2 \<and> keys_visited s2" by simp
    show ?thesis
      by (rule follow_links_preserves[where J="\<lambda>s. I s \<and> keys_visited s", OF rec exnI I2 links(2)])
  qed
qed

lemma crawl_page_preserves:
  assumes skip: "\<And>s. I s \<Longrightarrow> I (add_skipped s)"
    and robots: "\<And>d s. I s \<Longrightarrow> I (s\<lparr>robot_parsers := robot_parsers s @ [d]\<rparr>)"
    and mark: "\<And>u s. I s \<Longrightarrow> keys_visited s \<Longrightarrow> u \<notin> visited_urls s \<Longrightarrow> I (log_fetch u (mark_visited u s))"
    and exn: "\<And>u e s. I s \<Longrightarrow> I (log_exception u e s)"
    and status: "\<And>u c s. I s \<Longrightarrow> I (log_status_error u c s)"
    and ens: "\<And>s. I s \<Longrightarrow> I (ensure_domain (get_domain base_url) base_url s)"
    and store: "\<And>u p s. I s \<Longrightarrow> keys_visited s \<Longrightarrow> u \<in> visited_urls s \<Longrightarrow> u \<notin> page_keys s \<Longrightarrow>
                  should_crawl_domain cfg s (get_domain base_url) \<Longrightarrow>
                  I (store_page (get_domain base_url) u p s)"
  shows "I s \<and> keys_visited s \<Longrightarrow> crawl_page fuel env cfg url0 base_url base_domain depth s = Some s'
         \<Longrightarrow> I s' \<and> keys_visited s'"
proof (induction fuel arbitrary: url0 depth s s')
  case 0
  then show ?case by simp
next
  case (Suc fuel)
  define url where "url = clean_url url0"
  define s1 where "s1 = snd (is_allowed_by_robots env cfg url s)"
  define s3 where "s3 = log_fetch url (mark_visited url s1)"
  have I: "I s" and kv: "keys_visited s" using Suc.prems(1) by simp_all
  have I1: "I s1"
    using robots_cases[of env cfg url s] I skip robots unfolding s1_def by metis
  have kv1: "keys_visited s1" using kv by (simp add: keys_visited_def s1_def)
  from crawl_page_cases[OF Suc.prems(2)] consider
      (seen) "s' = s"
    | (quota) "s' = add_skipped s"
    | (robots) "s' = s1"
    | (fetch) "url \<notin> visited_urls s"
        "handle_response (\<lambda>next_url s'. crawl_page fuel env cfg next_url base_url base_domain (depth + 1) s')
           cfg url base_url base_domain depth (http_get env url) s3 = Some s'"
    unfolding url_def s1_def s3_def by blast
  then show ?case
  proof cases
    case seen
    with Suc.prems(1) show ?thesis by simp
  next
    case quota
    with I kv skip show ?thesis by (simp add: keys_visited_def)
  next
    case robots
    with I1 kv1 show ?thesis by simp
  next
    case fetch
    have unvisited1: "url \<notin> visited_urls s1" using fetch(1) by (simp add: s1_def)
    have I3: "I s3" unfolding s3_def using I1 kv1 unvisited1 by (rule mark)
    have kv3: "keys_visited s3" using kv1 by (auto simp: keys_visited_def s3_def)
    have vis3: "url \<in> visited_urls s3" by (simp add: s3_def)
    have fresh3: "url \<notin> page_keys s3" using kv1 unvisited1 by (auto simp: keys_visited_def s3_def)
    from handle_response_cases[OF fetch(2)] consider
        (raised) e where "s' = log_exception url e s3"
      | (bad) c where "s' = log_status_error url c s3"
      | (nonhtml) "s' = add_skipped s3"
      | (page) d where "process_page (\<lambda>next_url s'. crawl_page fuel env cfg next_url base_url base_domain (depth + 1) s')
             cfg url base_url base_domain depth d s3 = Some s'"
      by blast
    then show ?thesis
    proof cases
      case raised
      with I3 kv3 exn show ?thesis by (simp add: keys_visited_def)
    next
      case bad
      with I3 kv3 status show ?thesis by (simp add: keys_visited_def)
    next
      case nonhtml
      with I3 kv3 skip show ?thesis by (simp add: keys_visited_def)
    next
      case page
      show ?thesis
        by (rule process_page_preserves[where I=I, OF Suc.IH skip exn ens store I3 kv3 vis3 fresh3 page])
    qed
  qed
qed

lemma crawl_page_invariant:
  assumes steps: "preserved_by_steps cfg (get_domain base_url) I"
    and I: "I s" and kv: "keys_visited s"
    and run: "crawl_page fuel env cfg url0 base_url base_domain depth s = Some s'"
  shows "I s' \<and> keys_visited s'"
proof -
  have skip: "\<And>s. I s \<Longrightarrow> I (add_skipped s)"
    and robots: "\<And>d s. I s \<Longrightarrow> I (s\<lparr>robot_parsers := robot_parsers s @ [d]\<rparr>)"
    and mark: "\<And>u s. I s \<Longrightarrow> keys_visited s \<Longrightarrow> u \<notin> visited_urls s \<Longrightarrow> I (log_fetch u (mark_visited u s))"
    and exn: "\<And>u e s. I s \<Longrightarrow> I (log_exception u e s)"
    and status: "\<And>u c s. I s \<Longrightarrow> I (log_status_error u c s)"
    and ens: "\<And>s. I s \<Longrightarrow> I (ensure_domain (get_domain base_url) base_url s)"
    and store: "\<And>u p s. I s \<Longrightarrow> keys_visited s \<Longrightarrow> u \<in> visited_urls s \<Longrightarrow> u \<notin> page_keys s \<Longrightarrow>
                  should_crawl_domain cfg s (get_domain base_url) \<Longrightarrow>
                  I (store_page (get_domain base_url) u p s)"
    using steps unfolding preserved_by_steps_def by simp_all
  from I kv have ikv: "I s \<and> keys_visited s" by simp
  show ?thesis
    by (rule crawl_page_preserves[where I=I, OF skip robots mark exn status ens store ikv run])
qed

lemma page_keys_reset_stats: "page_keys (reset_stats d s) \<subseteq> page_keys s"
proof (cases "map_of (knowledge_base s) d")
  case None
  then show ?thesis by (simp add: reset_stats_def)
next
  case (Some r)
  have "(d, r) \<in> set (knowledge_base s)" using Some by (rule map_of_SomeD)
  then have a: "fst ` set (d_pages r) \<subseteq> kb_keys (knowledge_base s)" by (rule kb_keys_member)
  have b: "kb_keys (AList.update d (r\<lparr>d_stats := \<lparr>ds_pages_crawled = 0, ds_by_type = []\<rparr>\<rparr>) (knowledge_base s))
      \<subseteq> fst ` set (d_pages (r\<lparr>d_stats := \<lparr>ds_pages_crawled = 0, ds_by_type = []\<rparr>\<rparr>)) \<union> kb_keys (knowledge_base s)"
    by (rule kb_keys_update)
  have c: "knowledge_base (reset_stats d s) =
        AList.update d (r\<lparr>d_stats := \<lparr>ds_pages_crawled = 0, ds_by_type = []\<rparr>\<rparr>) (knowledge_base s)"
    using Some by (simp add: reset_stats_def)
  have "kb_keys (AList.update d (r\<lparr>d_stats := \<lparr>ds_pages_crawled = 0, ds_by_type = []\<rparr>\<rparr>) (knowledge_base s))
      \<subseteq> kb_keys (knowledge_base s)"
  proof
    fix x assume "x \<in> kb_keys (AList.update d (r\<lparr>d_stats := \<lparr>ds_pages_crawled = 0, ds_by_type = []\<rparr>\<rparr>) (knowledge_base s))"
    with b have "x \<in> fst ` set (d_pages r) \<or> x \<in> kb_keys (knowledge_base s)" by auto
    with a show "x \<in> kb_keys (knowledge_base s)" by blast
  qed
  then show ?thesis unfolding page_keys_def c .
qed

lemma visited_reset_stats [simp]: "visited_urls (reset_stats d s) = visited_urls s"
  by (cases "map_of (knowledge_base s) d") (simp_all add: reset_stats_def)

lemma keys_visited_reset_stats: "keys_visited s \<Longrightarrow> keys_visited (reset_stats d s)"
  using page_keys_reset_stats[of d s] unfolding keys_visited_def by auto

lemma crawl_website_invariant:
  assumes steps: "\<And>domain. preserved_by_steps cfg domain I"
    and reset: "\<And>d s. I s \<Longrightarrow> I (reset_stats d s)"
    and I: "I s" and kv: "keys_visited s"
    and run: "crawl_website fuel env cfg url s = Some s'"
  shows "I s' \<and> keys_visited s'"
proof -
  have a: "I (reset_stats (get_domain (seed_url url)) s)" using I by (rule reset)
  have b: "keys_visited (reset_stats (get_domain (seed_url url)) s)"
    using kv by (rule keys_visited_reset_stats)
  from run have c: "crawl_page fuel env cfg (seed_url url) (seed_base_url url) (get_domain (seed_url url)) 0
        (reset_stats (get_domain (seed_url url)) s) = Some s'"
    by (simp add: crawl_website_def Let_def)
  show ?thesis by (rule crawl_page_invariant[OF steps a b c])
qed

lemma crawl_sites_invariant:
  assumes steps: "\<And>domain. preserved_by_steps cfg domain I"
    and reset: "\<And>d s. I s \<Longrightarrow> I (reset_stats d s)"
  shows "I s \<Longrightarrow> keys_visited s \<Longrightarrow> crawl_sites fuel env cfg urls s = Some s' \<Longrightarrow> I s' \<and> keys_visited s'"
proof (induction urls arbitrary: s)
  case Nil
  then show ?case by simp
next
  case (Cons url urls)
  from Cons.prems(3) obtain s1 where a: "crawl_website fuel env cfg url s = Some s1"
    and b: "crawl_sites fuel env cfg urls s1 = Some s'"
    by (cases "crawl_website fuel env cfg url s") simp_all
  have s1: "I s1 \<and> keys_visited s1"
    by (rule crawl_website_invariant[where I=I, OF steps reset Cons.prems(1,2) a])
  show ?case by (rule Cons.IH[OF conjunct1[OF s1] conjunct2[OF s1] b])
qed

lemma crawl_calls_invariant:
  assumes steps: "\<And>domain. preserved_by_steps cfg domain I"
  shows "I s \<Longrightarrow> keys_visited s \<Longrightarrow> crawl_calls fuel env cfg calls s = Some s' \<Longrightarrow> I s' \<and> keys_visited s'"
proof (induction calls arbitrary: s)
  case Nil
  then show ?case by simp
next
  case (Cons call calls)
  obtain url base_url base_domain depth where call: "call = (url, base_url, base_domain, depth)"
    by (cases call) auto
  from Cons.prems(3) call obtain s1 where
    a: "crawl_page fuel env cfg url base_url base_domain depth s = Some s1"
    and b: "crawl_calls fuel env cfg calls s1 = Some s'"
    by (cases "crawl_page fuel env cfg url base_url base_domain depth s") simp_all
  have s1: "I s1 \<and> keys_visited s1"
    by (rule crawl_page_invariant[where I=I, OF steps Cons.prems(1,2) a])
  show ?case by (rule Cons.IH[OF conjunct1[OF s1] conjunct2[OF s1] b])
qed

lemma keys_visited_init: "keys_visited init_state"
  by (simp add: keys_visited_def page_keys_def kb_keys_def init_state_def)

subsection \<open>Errors are counted when they are logged\<close>

lemma errors_counted_steps: "preserved_by_steps cfg domain errors_counted"
  unfolding preserved_by_steps_def errors_counted_def
  by (simp add: add_skipped_def log_fetch_def mark_visited_def log_exception_def
      log_status_error_def ensure_domain_def store_page_def split: option.splits)

lemma errors_counted_reset: "errors_counted s \<Longrightarrow> errors_counted (reset_stats d s)"
  by (cases "map_of (knowledge_base s) d") (simp_all add: errors_counted_def reset_stats_def)

lemma errors_counted_init: "errors_counted init_state"
  by (simp add: errors_counted_def init_state_def)

lemma errors_counted_run:
  assumes "crawl_websites fuel env cfg digest urls init_state = Some s"
  shows "errors_counted s"
proof -
  from assms obtain s0 where a: "crawl_sites fuel env cfg urls init_state = Some s0"
    and b: "s = remove_duplicate_content digest s0"
    by (auto simp: crawl_websites_def)
  have "errors_counted s0 \<and> keys_visited s0"
    by (rule crawl_sites_invariant[where I=errors_counted, OF errors_counted_steps
          errors_counted_reset errors_counted_init keys_visited_init a])
  with b show ?thesis by (simp add: errors_counted_def remove_duplicate_content_def)
qed

subsection \<open>The quota\<close>

lemma length_update_le: "length (AList.update k v al) \<le> Suc (length al)"
  by (induction al) auto

lemma length_filter_update_le:
  "length (filter P (AList.update k v al)) \<le> Suc (length (filter P al))"
  by (induction al) auto

lemma lower_content_types: "list_all (\<lambda>t. py_lower t \<in> set content_page_types) content_page_types"
  by code_simp

lemma lower_content_type: "t \<in> set content_page_types \<Longrightarrow> py_lower t \<in> set content_page_types"
  using lower_content_types unfolding list_all_iff by blast

lemma length_filter_mono:
  "(\<And>x. P x \<Longrightarrow> Q x) \<Longrightarrow> length (filter P xs) \<le> length (filter Q xs)"
  by (induction xs) auto

lemma content_pages_le: "content_pages r \<le> length (filter is_content_page (d_pages r))"
  unfolding content_pages_def
  by (rule length_filter_mono) (simp add: is_content_page_def lower_content_type)

lemma should_crawl_domain_Some:
  "map_of (knowledge_base s) d = Some r \<Longrightarrow>
   should_crawl_domain cfg s d =
     (int (length (filter is_content_page (d_pages r))) < max_pages_per_domain cfg \<and>
      int (length (d_pages r)) < max_pages_per_domain cfg * 3)"
  by (auto simp: should_crawl_domain_def Let_def)

lemma should_crawl_domain_None:
  "map_of (knowledge_base s) d = None \<Longrightarrow> should_crawl_domain cfg s d"
  by (simp add: should_crawl_domain_def)

lemma store_in_domain_quota:
  assumes "int (length (filter is_content_page (d_pages r))) < q"
    and "int (length (d_pages r)) < q * 3"
  shows "int (content_pages (store_in_domain u p r)) \<le> q \<and>
         int (length (d_pages (store_in_domain u p r))) \<le> 3 * q"
proof -
  have "content_pages (store_in_domain u p r)
        \<le> length (filter is_content_page (d_pages (store_in_domain u p r)))"
    by (rule content_pages_le)
  also have "\<dots> \<le> Suc (length (filter is_content_page (d_pages r)))"
    by (simp add: store_in_domain_def length_filter_update_le)
  finally have a: "int (content_pages (store_in_domain u p r)) \<le> q" using assms(1) by linarith
  have "length (d_pages (store_in_domain u p r)) \<le> Suc (length (d_pages r))"
    by (simp add: store_in_domain_def length_update_le)
  then have "int (length (d_pages (store_in_domain u p r))) \<le> 3 * q" using assms(2) by linarith
  with a show ?thesis by simp
qed

lemma within_quota_simps [simp]:
  "within_quota cfg (add_skipped s) = within_quota cfg s"
  "within_quota cfg (log_exception u e s) = within_quota cfg s"
  "within_quota cfg (log_status_error u c s) = within_quota cfg s"
  "within_quota cfg (log_fetch u (mark_visited u s)) = within_quota cfg s"
  "within_quota cfg (s\<lparr>robot_parsers := ps\<rparr>) = within_quota cfg s"
  by (simp_all add: within_quota_def)

lemma within_quota_update:
  assumes "within_quota cfg s"
    and "knowledge_base s' = AList.update d r (knowledge_base s)"
    and "int (content_pages r) \<le> max_pages_per_domain cfg"
    and "int (length (d_pages r)) \<le> 3 * max_pages_per_domain cfg"
  shows "within_quota cfg s'"
  unfolding within_quota_def
proof
  fix entry assume "entry \<in> set (knowledge_base s')"
  with assms(2) set_update_subset[of d r "knowledge_base s"]
  have "entry = (d, r) \<or> entry \<in> set (knowledge_base s)" by auto
  then show "int (content_pages (snd entry)) \<le> max_pages_per_domain cfg \<and>
        int (length (d_pages (snd entry))) \<le> 3 * max_pages_per_domain cfg"
  proof
    assume "entry = (d, r)" with assms(3,4) show ?thesis by simp
  next
    assume "entry \<in> set (knowledge_base s)"
    with assms(1) show ?thesis unfolding within_quota_def by blast
  qed
qed

lemma within_quota_ensure_domain:
  assumes "0 \<le> max_pages_per_domain cfg" and "within_quota cfg s"
  shows "within_quota cfg (ensure_domain d b s)"
proof (cases "map_of (knowledge_base s) d")
  case None
  then have "knowledge_base (ensure_domain d b s) = AList.update d (new_domain_record b) (knowledge_base s)"
    by (simp add: ensure_domain_def)
  with assms(2) show ?thesis
    by (rule within_quota_update) (use assms(1) in \<open>simp_all add: new_domain_record_def content_pages_def\<close>)
next
  case (Some r)
  with assms(2) show ?thesis by (simp add: ensure_domain_def)
qed

lemma within_quota_store_page:
  assumes "within_quota cfg s" and "should_crawl_domain cfg s d"
  shows "within_quota cfg (store_page d u p s)"
proof (cases "map_of (knowledge_base s) d")
  case None
  with assms(1) show ?thesis by (simp add: store_page_def)
next
  case (Some r)
  from assms(2) should_crawl_domain_Some[OF Some, of cfg]
  have a: "int (length (filter is_content_page (d_pages r))) < max_pages_per_domain cfg"
    and b: "int (length (d_pages r)) < max_pages_per_domain cfg * 3" by simp_all
  note q = store_in_domain_quota[OF a b, of u p]
  show ?thesis
    by (rule within_quota_update[OF assms(1) kb_store_page[OF Some] conjunct1[OF q] conjunct2[OF q]])
qed

lemma within_quota_steps:
  assumes "0 \<le> max_pages_per_domain cfg"
  shows "preserved_by_steps cfg domain (within_quota cfg)"
  unfolding preserved_by_steps_def
proof (intro conjI allI impI)
  fix b s assume "within_quota cfg s"
  with assms show "within_quota cfg (ensure_domain domain b s)" by (rule within_quota_ensure_domain)
next
  fix u p s
  assume "within_quota cfg s \<and> keys_visited s \<and> u \<in> visited_urls s \<and> u \<notin> page_keys s \<and>
          should_crawl_domain cfg s domain"
  then show "within_quota cfg (store_page domain u p s)"
    using within_quota_store_page by simp
qed simp_all

lemma within_quota_init: "within_quota cfg init_state"
  by (simp add: within_quota_def init_state_def)

subsection \<open>The example site, evaluated\<close>

lemma toolbox_crawl:
  "crawl_page 3 toolbox_env demo_config toolbox_seed ''https://example.org'' ''example.org'' 0 init_state
     = Some full_state"
  by code_simp

lemma toolbox_seed_parts:
  "seed_url toolbox_seed = toolbox_seed"
  "seed_base_url toolbox_seed = ''https://example.org''"
  "get_domain toolbox_seed = ''example.org''"
  by code_simp+

lemma toolbox_site: "crawl_website 3 toolbox_env demo_config toolbox_seed init_state = Some full_state"
  unfolding crawl_website_def Let_def toolbox_seed_parts
  using toolbox_crawl by (simp add: reset_stats_def init_state_def)

section \<open>The claims\<close>

text \<open>
  C1. With a quota \<open>Q\<close> that is not negative, after any run of calls of \<open>crawl_page\<close> on a
  fresh generator every domain holds at most \<open>Q\<close> pages whose type is a content type and at
  most \<open>3Q\<close> pages in all. \<open>should_crawl_domain\<close> is false for a domain whose content
  pages have reached \<open>Q\<close> or whose pages have reached \<open>3Q\<close>, and true for a domain that is
  not in the knowledge base.
\<close>

theorem domain_quota_respected:
  assumes "0 \<le> max_pages_per_domain cfg"
    and "crawl_calls fuel env cfg calls init_state = Some s"
  shows "within_quota cfg s \<and>
         (\<forall>domain r. map_of (knowledge_base s) domain = Some r \<and>
              (int (content_pages r) \<ge> max_pages_per_domain cfg \<or>
               int (length (d_pages r)) \<ge> 3 * max_pages_per_domain cfg)
            \<longrightarrow> \<not> should_crawl_domain cfg s domain) \<and>
         (\<forall>domain. map_of (knowledge_base s) domain = None \<longrightarrow> should_crawl_domain cfg s domain)"
proof -
  have a: "within_quota cfg s \<and> keys_visited s"
    by (rule crawl_calls_invariant[where I="within_quota cfg", OF within_quota_steps[OF assms(1)]
          within_quota_init keys_visited_init assms(2)])
  have b: "\<not> should_crawl_domain cfg s domain"
    if r: "map_of (knowledge_base s) domain = Some r"
      and full: "int (content_pages r) \<ge> max_pages_per_domain cfg \<or>
           int (length (d_pages r)) \<ge> 3 * max_pages_per_domain cfg" for domain r
  proof -
    have "int (content_pages r) \<le> int (length (filter is_content_page (d_pages r)))"
      using content_pages_le[of r] by simp
    with full have "\<not> (int (length (filter is_content_page (d_pages r))) < max_pages_per_domain cfg \<and>
      int (length (d_pages r)) < max_pages_per_domain cfg * 3)" by linarith
    then show ?thesis unfolding should_crawl_domain_Some[OF r] .
  qed
  have c: "should_crawl_domain cfg s domain" if "map_of (knowledge_base s) domain = None" for domain
    using that by (rule should_crawl_domain_None)
  from a b c show ?thesis by blast
qed

theorem domain_quota_respected_witness:
  "0 \<le> max_pages_per_domain demo_config \<and>
   crawl_calls 3 toolbox_env demo_config [(toolbox_seed, ''https://example.org'', ''example.org'', 0)] init_state
     = Some full_state \<and>
   within_quota demo_config full_state \<and>
   map_of (knowledge_base full_state) ''example.org'' = Some full_domain \<and>
   int (content_pages full_domain) \<ge> max_pages_per_domain demo_config \<and>
   \<not> should_crawl_domain demo_config full_state ''example.org'' \<and>
   map_of (knowledge_base full_state) ''www.example.org'' = None \<and>
   should_crawl_domain demo_config full_state ''www.example.org''"
proof -
  have h1: "0 \<le> max_pages_per_domain demo_config" by (simp add: demo_config_def)
  have h2: "crawl_calls 3 toolbox_env demo_config [(toolbox_seed, ''https://example.org'', ''example.org'', 0)] init_state
     = Some full_state" using toolbox_crawl by simp
  have h4: "map_of (knowledge_base full_state) ''example.org'' = Some full_domain"
    by (simp add: full_state_def init_state_def)
  have h5: "int (content_pages full_domain) \<ge> max_pages_per_domain demo_config" by code_simp
  have h6: "map_of (knowledge_base full_state) ''www.example.org'' = None"
    by (simp add: full_state_def init_state_def)
  note t = domain_quota_respected[OF h1 h2]
  from t h4 h5 have a: "\<not> should_crawl_domain demo_config full_state ''example.org''" by blast
  from t h6 have b: "should_crawl_domain demo_config full_state ''www.example.org''" by blast
  from h1 h2 h4 h5 h6 t a b show ?thesis by blast
qed

end
